theory Spec2Isabelle
  imports Main "HOL-Library.Word" "HOL-Library.Char_ord" "HOL-Library.List_Lexorder"
begin

unbundle bit_operations_syntax

section \<open>C library functions used by protocol\_key.c\<close>

text \<open>
  C strings and \<open>char\<close> buffers are lists of \<open>char\<close>; a C string holds no NUL byte
  (the terminator is the end of the list).
\<close>

definition c_string :: "string \<Rightarrow> bool" where
  "c_string s = (CHR 0x00 \<notin> set s)"

text \<open>
  \<open>strcmp\<close>: the difference of the first pair of bytes that differ, read as unsigned
  bytes; the end of a string reads as the terminating NUL (0).
\<close>

fun strcmp :: "string \<Rightarrow> string \<Rightarrow> int" where
  "strcmp [] [] = 0"
| "strcmp [] (y # ys) = 0 - of_char y"
| "strcmp (x # xs) [] = of_char x"
| "strcmp (x # xs) (y # ys) = (if x = y then strcmp xs ys else of_char x - of_char y)"

text \<open>
  Writing bytes at the start of a buffer: the bytes written replace the first bytes of
  the buffer, what lies behind them stays.
\<close>

definition overwrite :: "string \<Rightarrow> string \<Rightarrow> string" where
  "overwrite new buf = new @ drop (length new) buf"

text \<open>\<open>memset(p, 0, n)\<close> on a buffer.\<close>

definition memset0 :: "string \<Rightarrow> nat \<Rightarrow> string" where
  "memset0 buf n = replicate n (CHR 0x00) @ drop n buf"

subsection \<open>sscanf\<close>

text \<open>
  The conversions the handlers' format strings use: \<open>%*d\<close>, \<open>%*x\<close>, \<open>%*s\<close>
  (suppressed), \<open>%Ns\<close> with a field width (\<open>MAX_STRING\<close> is \<open>%2048s\<close>), \<open>%d\<close>, and white
  space in the format. \<open>sscanf\<close> returns the values assigned, in order; the C function's
  return value is their number.

  A \<open>%d\<close> stores into an \<open>int\<close> (\<open>reqno\<close> in \<open>req_key_h\<close>; \<open>cipher\<close>, \<open>digest\<close>,
  \<open>maclength\<close>, \<open>compression\<close> in \<open>ans_key_h\<close>): the C library reads the digits as a
  \<open>long\<close>, as \<open>strtol\<close> does (a value out of the range of a 64-bit \<open>long\<close> becomes the
  nearest bound), and the assignment keeps the low 32 bits, read as a signed number. So
  \<open>4294967297\<close> is read as 1 and \<open>4294967296\<close> as 0.

  A \<open>%x\<close> accepts an optional sign and an optional \<open>0x\<close> or \<open>0X\<close>; the prefix is
  consumed whether or not a hexadecimal digit follows it (its \<open>0\<close> is a digit already, so
  the conversion succeeds).
\<close>

datatype conv = SkipD | SkipX | SkipS | ConvS nat | ConvD | WS

datatype arg = AStr string | AInt int

definition isspace :: "char \<Rightarrow> bool" where
  "isspace c = (c = CHR '' '' \<or> c = CHR 0x09 \<or> c = CHR 0x0A \<or> c = CHR 0x0B
                \<or> c = CHR 0x0C \<or> c = CHR 0x0D)"

definition isdigit :: "char \<Rightarrow> bool" where
  "isdigit c = (CHR ''0'' \<le> c \<and> c \<le> CHR ''9'')"

definition isxdigit :: "char \<Rightarrow> bool" where
  "isxdigit c = (isdigit c \<or> (CHR ''a'' \<le> c \<and> c \<le> CHR ''f'') \<or> (CHR ''A'' \<le> c \<and> c \<le> CHR ''F''))"

definition skip_space :: "string \<Rightarrow> string" where
  "skip_space s = dropWhile isspace s"

definition digit_val :: "char \<Rightarrow> int" where
  "digit_val c = of_char c - of_char (CHR ''0'')"

definition dec_val :: "string \<Rightarrow> int" where
  "dec_val ds = foldl (\<lambda>a d. 10 * a + digit_val d) 0 ds"

definition scan_sign :: "string \<Rightarrow> bool \<times> string" where
  "scan_sign s =
     (case s of
        c # r \<Rightarrow> (if c = CHR ''-'' then (True, r) else if c = CHR ''+'' then (False, r) else (False, s))
      | [] \<Rightarrow> (False, s))"

definition strtol_clamp :: "int \<Rightarrow> int" where
  "strtol_clamp v = max (- 9223372036854775808) (min 9223372036854775807 v)"

definition to_int32 :: "int \<Rightarrow> int" where
  "to_int32 v = (v + 2147483648) mod 4294967296 - 2147483648"

definition scan_int :: "string \<Rightarrow> (int \<times> string) option" where
  "scan_int s =
     (let (neg, r) = scan_sign (skip_space s);
          ds = takeWhile isdigit r
      in if ds = [] then None
         else Some (to_int32 (strtol_clamp (if neg then - dec_val ds else dec_val ds)),
                    dropWhile isdigit r))"

definition scan_hex :: "string \<Rightarrow> string option" where
  "scan_hex s =
     (let (neg, r) = scan_sign (skip_space s)
      in case r of
           z # x # r' \<Rightarrow>
             (if z = CHR ''0'' \<and> (x = CHR ''x'' \<or> x = CHR ''X'') then Some (dropWhile isxdigit r')
              else if isxdigit z then Some (dropWhile isxdigit r) else None)
         | _ \<Rightarrow> (if takeWhile isxdigit r = [] then None else Some (dropWhile isxdigit r)))"

definition scan_str :: "nat option \<Rightarrow> string \<Rightarrow> (string \<times> string) option" where
  "scan_str width s =
     (let r = skip_space s;
          tok = takeWhile (\<lambda>c. \<not> isspace c) r;
          tok' = (case width of None \<Rightarrow> tok | Some w \<Rightarrow> take w tok)
      in if tok' = [] then None else Some (tok', drop (length tok') r))"

fun sscanf :: "string \<Rightarrow> conv list \<Rightarrow> arg list" where
  "sscanf s [] = []"
| "sscanf s (WS # fs) = sscanf (skip_space s) fs"
| "sscanf s (SkipD # fs) = (case scan_int s of None \<Rightarrow> [] | Some (v, r) \<Rightarrow> sscanf r fs)"
| "sscanf s (SkipX # fs) = (case scan_hex s of None \<Rightarrow> [] | Some r \<Rightarrow> sscanf r fs)"
| "sscanf s (SkipS # fs) = (case scan_str None s of None \<Rightarrow> [] | Some (v, r) \<Rightarrow> sscanf r fs)"
| "sscanf s (ConvS w # fs) = (case scan_str (Some w) s of None \<Rightarrow> [] | Some (v, r) \<Rightarrow> AStr v # sscanf r fs)"
| "sscanf s (ConvD # fs) = (case scan_int s of None \<Rightarrow> [] | Some (v, r) \<Rightarrow> AInt v # sscanf r fs)"

text \<open>Reading the assigned values back into the handler's variables.\<close>

fun the_S :: "arg \<Rightarrow> string" where
  "the_S (AStr s) = s"
| "the_S (AInt i) = []"

fun the_I :: "arg \<Rightarrow> int" where
  "the_I (AInt i) = i"
| "the_I (AStr s) = 0"

text \<open>
  A variable that a conversion past the required ones assigns: it keeps its initial
  value (the empty string, 0) when \<open>sscanf\<close> stops before that conversion.
\<close>

definition optional_S :: "arg list \<Rightarrow> nat \<Rightarrow> string" where
  "optional_S args i = (if i < length args then the_S (args ! i) else [])"

definition optional_I :: "arg list \<Rightarrow> nat \<Rightarrow> int" where
  "optional_I args i = (if i < length args then the_I (args ! i) else 0)"

subsection \<open>printf conversions\<close>

fun dec_nat :: "nat \<Rightarrow> string" where
  "dec_nat n = (if n < 10 then [char_of (of_char (CHR ''0'') + n)]
                else dec_nat (n div 10) @ [char_of (of_char (CHR ''0'') + n mod 10)])"

declare dec_nat.simps [simp del]

definition dec_int :: "int \<Rightarrow> string" where
  "dec_int i = (if i < 0 then CHR ''-'' # dec_nat (nat (- i)) else dec_nat (nat i))"

fun hex_nat :: "nat \<Rightarrow> string" where
  "hex_nat n = (if n < 16 then [''0123456789abcdef'' ! n]
                else hex_nat (n div 16) @ [''0123456789abcdef'' ! (n mod 16)])"

declare hex_nat.simps [simp del]

section \<open>Data model\<close>

text \<open>
  Modelled from the spec: \<open>cipher_t\<close> and \<open>digest_t\<close> with their getters and key setters
  (cipher.c and digest.c are not among the sources). A context knows its algorithm
  (\<open>cipher_get_nid\<close>, \<open>digest_get_nid\<close>), its key length (\<open>cipher_keylength\<close>) or MAC length
  (\<open>digest_length\<close>) and the key material installed in it. \<open>cipher_set_key\<close> takes no
  length: it reads \<open>cipher_keylength\<close> bytes at the pointer it is given;
  \<open>digest_set_key\<close> reads the number of bytes it is told.
\<close>

record cipher_t =
  cipher_get_nid :: int
  cipher_keylength :: nat
  cipher_key :: string
  cipher_encrypt :: bool

record digest_t =
  digest_get_nid :: int
  digest_length :: nat
  digest_key :: string

definition cipher_set_key :: "cipher_t \<Rightarrow> string \<Rightarrow> bool \<Rightarrow> cipher_t" where
  "cipher_set_key ctx material encrypt =
     ctx\<lparr>cipher_key := take (cipher_keylength ctx) material, cipher_encrypt := encrypt\<rparr>"

definition digest_set_key :: "digest_t \<Rightarrow> string \<Rightarrow> nat \<Rightarrow> digest_t" where
  "digest_set_key ctx material len = ctx\<lparr>digest_key := take len material\<rparr>"

record sockaddr_t =
  sa_family :: nat
  sa_host :: string
  sa_port :: string

definition AF_UNSPEC :: nat where
  "AF_UNSPEC = 0"

text \<open>
  \<open>node_t\<close>, the fields protocol\_key.c reads or writes. A pointer to a node is the key
  under which \<open>node_tree\<close> holds it; \<open>nexthop\<close> is such a pointer (\<open>None\<close> is NULL),
  \<open>connection\<close> a pointer to a connection, \<open>ecdsa\<close> and \<open>ecdh\<close> are \<open>None\<close> while the
  node has no public key or no ECDH exchange in progress.
\<close>

record node_t =
  name :: string
  hostname :: string
  options :: "32 word"
  status_reachable :: bool
  status_validkey :: bool
  last_req_key :: int
  nexthop :: "string option"
  connection :: "nat option"
  ecdsa :: "string option"
  ecdh :: "string option"
  incipher :: cipher_t
  indigest :: digest_t
  incompression :: int
  outcipher :: cipher_t
  outdigest :: digest_t
  outcompression :: int
  received_seqno :: "32 word"
  sent_seqno :: "32 word"
  late :: string
  address :: sockaddr_t

text \<open>
  \<open>connection_t\<close>: \<open>conn_id\<close> is the pointer to the connection, \<open>conn_name\<close> and
  \<open>conn_hostname\<close> are \<open>c->name\<close> and \<open>c->hostname\<close>, \<open>conn_active\<close> is
  \<open>c->status.active\<close>, \<open>conn_node\<close> the pointer \<open>c->node\<close>.
\<close>

record connection_t =
  conn_id :: nat
  conn_name :: string
  conn_hostname :: string
  conn_active :: bool
  conn_node :: "string option"

datatype debug_t = DEBUG_ALWAYS | DEBUG_PROTOCOL

datatype priority = LOG_ERR | LOG_WARNING | LOG_INFO | LOG_DEBUG

text \<open>
  The process: the globals of the program (\<open>myself\<close>, \<open>mykeyused\<close>, \<open>experimental\<close>,
  \<open>tunnelserver\<close>, \<open>replaywin\<close>, the node tree, the cache of past requests) and what the
  handlers hand to the layers around them: the calls of \<open>logger\<close>, \<open>send_request\<close>,
  \<open>forward_request\<close>, \<open>send_mtu_probe\<close> and \<open>append_config_file\<close>, in order.
  \<open>myself_connection_ecdsa\<close> is \<open>myself->connection->ecdsa\<close>, our private key;
  \<open>connection_tree\<close> lists the connections in the order of the tree.
\<close>

record state =
  myself :: string
  node_tree :: "string \<Rightarrow> node_t option"
  myself_connection_ecdsa :: string
  connection_tree :: "connection_t list"
  past_request_tree :: "string set"
  mykeyused :: bool
  experimental :: bool
  tunnelserver :: bool
  replaywin :: nat
  random_draws :: nat
  logged :: "(debug_t \<times> priority \<times> string) list"
  requests_sent :: "(nat option \<times> string) list"
  requests_forwarded :: "(nat \<times> string) list"
  mtu_probes :: "string list"
  config_appended :: "(string \<times> string \<times> string) list"

text \<open>
  What the sources do not hold, as parameters: the constants and macros of the headers
  (the request numbers, \<open>OPTION_VERSION\<close>, \<open>OPTION_PMTU_DISCOVERY\<close>, \<open>ECDH_SIZE\<close>,
  \<open>ECDH_SHARED_SIZE\<close>), the algorithm tables behind \<open>cipher_open_by_nid\<close> and
  \<open>digest_open_by_nid\<close> (\<open>None\<close>: the call fails), the cryptographic primitives (\<open>prf_bytes\<close> is \<open>prf\<close>: secret, seed and output length), the
  codecs, the random generators \<open>randomize\<close> and \<open>rand\<close> (functions of the number of
  draws made so far), the connection \<open>everyone\<close> that stands for all connections,
  \<open>check_id\<close>, the address conversions, the public keys the configuration files hold,
  and whether the meta connection accepts a request (\<open>send_meta\<close>, the result of
  \<open>send_request\<close>). \<open>ecdh_generate_public\<close> gives the new ECDH handle and the public
  point (\<open>None\<close>: it fails); \<open>ecdh_compute_shared\<close> takes the handle and the peer's point
  and gives the handle it leaves and the shared secret (\<open>None\<close>: it fails).
\<close>

record services =
  KEY_CHANGED :: int
  REQ_KEY :: int
  ANS_KEY :: int
  REQ_PUBKEY :: int
  ANS_PUBKEY :: int
  OPTION_VERSION :: "32 word \<Rightarrow> nat"
  OPTION_PMTU_DISCOVERY :: "32 word"
  ECDH_SIZE :: nat
  ECDH_SHARED_SIZE :: nat
  check_id :: "string \<Rightarrow> bool"
  cipher_open_by_nid :: "int \<Rightarrow> cipher_t option"
  digest_open_by_nid :: "int \<Rightarrow> int \<Rightarrow> digest_t option"
  ecdsa_size :: "string \<Rightarrow> nat"
  ecdsa_sign :: "string \<Rightarrow> string \<Rightarrow> string option"
  ecdsa_verify :: "string \<Rightarrow> string \<Rightarrow> string \<Rightarrow> bool"
  ecdsa_get_base64_public_key :: "string \<Rightarrow> string"
  ecdsa_set_base64_public_key :: "string \<Rightarrow> string option"
  config_ecdsa_public_key :: "string \<Rightarrow> string option"
  ecdh_generate_public :: "nat \<Rightarrow> string option \<times> string option"
  ecdh_compute_shared :: "string option \<Rightarrow> string \<Rightarrow> string option \<times> string option"
  prf_bytes :: "string \<Rightarrow> string \<Rightarrow> nat \<Rightarrow> string option"
  b64encode :: "string \<Rightarrow> string"
  b64decode :: "string \<Rightarrow> string"
  bin2hex :: "string \<Rightarrow> string"
  hex2bin :: "string \<Rightarrow> string"
  randomize :: "nat \<Rightarrow> nat \<Rightarrow> string"
  sockaddr2str :: "sockaddr_t \<Rightarrow> string \<times> string"
  str2sockaddr :: "string \<Rightarrow> string \<Rightarrow> sockaddr_t"
  send_meta :: "nat option \<Rightarrow> string \<Rightarrow> bool"
  everyone :: nat
  rand :: "nat \<Rightarrow> nat"

section \<open>The services the handlers call\<close>

definition logger :: "debug_t \<Rightarrow> priority \<Rightarrow> string \<Rightarrow> state \<Rightarrow> state" where
  "logger level pri msg st = st\<lparr>logged := logged st @ [(level, pri, msg)]\<rparr>"

definition send_request :: "services \<Rightarrow> nat option \<Rightarrow> string \<Rightarrow> state \<Rightarrow> bool \<times> state" where
  "send_request srv c msg st =
     (send_meta srv c msg, st\<lparr>requests_sent := requests_sent st @ [(c, msg)]\<rparr>)"

definition forward_request :: "connection_t \<Rightarrow> string \<Rightarrow> state \<Rightarrow> state" where
  "forward_request c request st =
     st\<lparr>requests_forwarded := requests_forwarded st @ [(conn_id c, request)]\<rparr>"

text \<open>
  Modelled from the spec: \<open>seen_request\<close> (protocol.c is not among the sources),
  "insert-if-absent; returns prior presence", on a cache that is a set of request texts.
\<close>

definition seen_request :: "string \<Rightarrow> state \<Rightarrow> bool \<times> state" where
  "seen_request request st =
     (request \<in> past_request_tree st,
      st\<lparr>past_request_tree := insert request (past_request_tree st)\<rparr>)"

definition lookup_node :: "string \<Rightarrow> state \<Rightarrow> node_t option" where
  "lookup_node nm st = node_tree st nm"

text \<open>Writing through a node pointer.\<close>

definition set_node :: "string \<Rightarrow> node_t \<Rightarrow> state \<Rightarrow> state" where
  "set_node p n st = st\<lparr>node_tree := (node_tree st)(p \<mapsto> n)\<rparr>"

text \<open>
  \<open>n->nexthop->connection\<close>: the outer \<open>None\<close> is the dereference of a NULL or dangling
  \<open>nexthop\<close>, where the program has no defined behaviour.
\<close>

definition nexthop_connection :: "state \<Rightarrow> node_t \<Rightarrow> nat option option" where
  "nexthop_connection st n =
     (case nexthop n of None \<Rightarrow> None | Some p \<Rightarrow> map_option connection (node_tree st p))"

text \<open>
  Modelled from the spec: \<open>node_read_ecdsa_public_key\<close> (the key "may be absent; fetched
  lazily"): the key the node record holds, else the one its configuration file holds,
  which the caller then finds in \<open>n->ecdsa\<close>. \<open>None\<close> is the result false.
\<close>

definition node_read_ecdsa_public_key :: "services \<Rightarrow> node_t \<Rightarrow> string option" where
  "node_read_ecdsa_public_key srv n =
     (case ecdsa n of Some k \<Rightarrow> Some k | None \<Rightarrow> config_ecdsa_public_key srv (name n))"

text \<open>
  Modelled from the spec: \<open>update_node_udp\<close> "updates the peer's UDP endpoint";
  \<open>send_mtu_probe\<close> and \<open>append_config_file\<close> are recorded as calls.
\<close>

definition update_node_udp :: "node_t \<Rightarrow> sockaddr_t \<Rightarrow> node_t" where
  "update_node_udp n sa = n\<lparr>address := sa\<rparr>"

definition send_mtu_probe :: "node_t \<Rightarrow> state \<Rightarrow> state" where
  "send_mtu_probe n st = st\<lparr>mtu_probes := mtu_probes st @ [name n]\<rparr>"

definition append_config_file :: "string \<Rightarrow> string \<Rightarrow> string \<Rightarrow> state \<Rightarrow> state" where
  "append_config_file nm var val st =
     st\<lparr>config_appended := config_appended st @ [(nm, var, val)]\<rparr>"

section \<open>protocol\_key.c\<close>

text \<open>
  A handler takes the state of the process and returns its result and the new state.
  The handlers that send on \<open>n->nexthop->connection\<close> or read through \<open>myself\<close> return
  \<open>None\<close> where the program dereferences a NULL or dangling pointer, and \<open>Some\<close> of
  their result and the new state otherwise. An assignment through a node pointer is
  written to the node tree at once (\<open>set_node\<close>); where the source assigns several fields
  of one node in a row, the record update lists them together.
\<close>

subsection \<open>key\_changed\_h (lines 54--84)\<close>

text \<open>The format \<open>"%*d %*x " MAX_STRING\<close>.\<close>

definition key_changed_format :: "conv list" where
  "key_changed_format = [SkipD, WS, SkipX, WS, ConvS 2048]"

definition key_changed_h :: "connection_t \<Rightarrow> string \<Rightarrow> state \<Rightarrow> bool \<times> state" where
  "key_changed_h c request st =
     (let args = sscanf request key_changed_format in
      if length args \<noteq> 1 then
        (False, logger DEBUG_ALWAYS LOG_ERR
           (''Got bad KEY_CHANGED from '' @ conn_name c @ '' ('' @ conn_hostname c @ '')'') st)
      else
        let name_s = the_S (args ! 0);
            (seen, st1) = seen_request request st
        in if seen then (True, st1)
           else
             (case lookup_node name_s st1 of
                None \<Rightarrow>
                  (True, logger DEBUG_ALWAYS LOG_ERR
                     (''Got KEY_CHANGED from '' @ conn_name c @ '' ('' @ conn_hostname c
                        @ '') origin '' @ name_s @ '' which does not exist'') st1)
              | Some n \<Rightarrow>
                  let st2 = set_node name_s (n\<lparr>status_validkey := False, last_req_key := 0\<rparr>) st1
                  in (True, if \<not> tunnelserver st2 then forward_request c request st2 else st2)))"

subsection \<open>send\_ans\_key\_ecdh (lines 184--204) and send\_ans\_key (lines 206--234)\<close>

text \<open>
  The request \<open>"%d %s %s %s %d %d %zu %d"\<close> both senders build. The buffer \<open>key\<close> of
  \<open>send_ans_key_ecdh\<close> holds the \<open>ECDH_SIZE\<close> bytes of the public point, then the
  signature.
\<close>

definition ans_key_request ::
  "services \<Rightarrow> string \<Rightarrow> string \<Rightarrow> string \<Rightarrow> int \<Rightarrow> int \<Rightarrow> nat \<Rightarrow> int \<Rightarrow> string" where
  "ans_key_request srv from_name to_name key cipher_nid digest_nid maclength compression =
     dec_int (ANS_KEY srv) @ '' '' @ from_name @ '' '' @ to_name @ '' '' @ key @ '' ''
       @ dec_int cipher_nid @ '' '' @ dec_int digest_nid @ '' '' @ dec_nat maclength @ '' ''
       @ dec_int compression"

definition send_ans_key_ecdh :: "services \<Rightarrow> string \<Rightarrow> state \<Rightarrow> (bool \<times> state) option" where
  "send_ans_key_ecdh srv to_p st =
     (case node_tree st to_p of
        None \<Rightarrow> None
      | Some to_n \<Rightarrow>
          let siglen = ecdsa_size srv (myself_connection_ecdsa st);
              (handle, pub) = ecdh_generate_public srv (random_draws st);
              st1 = set_node to_p (to_n\<lparr>ecdh := handle\<rparr>)
                      (st\<lparr>random_draws := Suc (random_draws st)\<rparr>)
          in case pub of
               None \<Rightarrow> Some (False, st1)
             | Some point \<Rightarrow>
                 (case ecdsa_sign srv (myself_connection_ecdsa st) (take (ECDH_SIZE srv) point) of
                    None \<Rightarrow> Some (False, st1)
                  | Some sig \<Rightarrow>
                      (case node_tree st1 (myself st) of
                         None \<Rightarrow> None
                       | Some me \<Rightarrow>
                           (case nexthop_connection st1 to_n of
                              None \<Rightarrow> None
                            | Some nc \<Rightarrow>
                                Some (send_request srv nc
                                        (ans_key_request srv (name me) (name to_n)
                                           (b64encode srv
                                              (take (ECDH_SIZE srv + siglen)
                                                 (take (ECDH_SIZE srv) point @ sig)))
                                           (cipher_get_nid (incipher me))
                                           (digest_get_nid (indigest me))
                                           (digest_length (indigest me))
                                           (incompression me)) st1)))))"

text \<open>
  \<open>cipher_open_by_nid\<close> and \<open>digest_open_by_nid\<close> write the context they open; where
  they fail the context stays as it was (the callers below ignore the result).
\<close>

definition cipher_reopen :: "services \<Rightarrow> cipher_t \<Rightarrow> int \<Rightarrow> cipher_t" where
  "cipher_reopen srv ctx nid = (case cipher_open_by_nid srv nid of None \<Rightarrow> ctx | Some c \<Rightarrow> c)"

definition digest_reopen :: "services \<Rightarrow> digest_t \<Rightarrow> int \<Rightarrow> int \<Rightarrow> digest_t" where
  "digest_reopen srv ctx nid maclength =
     (case digest_open_by_nid srv nid maclength of None \<Rightarrow> ctx | Some d \<Rightarrow> d)"

text \<open>\<open>if(replaywin) memset(n->late, 0, replaywin)\<close>.\<close>

definition reset_late :: "state \<Rightarrow> string \<Rightarrow> string" where
  "reset_late st buf = (if replaywin st \<noteq> 0 then memset0 buf (replaywin st) else buf)"

text \<open>
  Lines 213--226 of \<open>send_ans_key\<close>: the contexts opened with our algorithms, the random
  key set in both, the sequence number and the window of late packets reset.
\<close>

definition send_ans_key :: "services \<Rightarrow> string \<Rightarrow> state \<Rightarrow> (bool \<times> state) option" where
  "send_ans_key srv to_p st =
     (case node_tree st to_p of
        None \<Rightarrow> None
      | Some to_n \<Rightarrow>
          if experimental st \<and> OPTION_VERSION srv (options to_n) \<ge> 2 then send_ans_key_ecdh srv to_p st
          else
            (case node_tree st (myself st) of
               None \<Rightarrow> None
             | Some me \<Rightarrow>
                 let keylen = cipher_keylength (incipher me);
                     key = take keylen (randomize srv (random_draws st) keylen);
                     to1 = to_n
                       \<lparr>incipher :=
                          cipher_set_key
                            (cipher_reopen srv (incipher to_n) (cipher_get_nid (incipher me))) key False,
                        indigest :=
                          digest_set_key
                            (digest_reopen srv (indigest to_n) (digest_get_nid (indigest me))
                               (int (digest_length (indigest me)))) key keylen,
                        incompression := incompression me,
                        received_seqno := 0,
                        late := reset_late st (late to_n)\<rparr>;
                     st1 = set_node to_p to1
                             (st\<lparr>random_draws := Suc (random_draws st), mykeyused := True\<rparr>)
                 in case nexthop_connection st1 to1 of
                      None \<Rightarrow> None
                    | Some nc \<Rightarrow>
                        Some (send_request srv nc
                                (ans_key_request srv (name me) (name to1) (bin2hex srv key)
                                   (cipher_get_nid (incipher to1))
                                   (digest_get_nid (indigest to1))
                                   (digest_length (indigest to1))
                                   (incompression to1)) st1)))"

subsection \<open>send\_key\_changed (lines 39--52) and send\_req\_key (lines 86--92)\<close>

text \<open>The loop of \<open>send_key_changed\<close> over the connections.\<close>

fun send_ans_keys :: "services \<Rightarrow> connection_t list \<Rightarrow> state \<Rightarrow> state option" where
  "send_ans_keys srv [] st = Some st"
| "send_ans_keys srv (c # cs) st =
     (case conn_node c of
        None \<Rightarrow> send_ans_keys srv cs st
      | Some p \<Rightarrow>
          if \<not> conn_active c then send_ans_keys srv cs st
          else
            (case node_tree st p of
               None \<Rightarrow> None
             | Some n \<Rightarrow>
                 if status_reachable n then
                   (case send_ans_key srv p st of
                      None \<Rightarrow> None
                    | Some (r, st1) \<Rightarrow> send_ans_keys srv cs st1)
                 else send_ans_keys srv cs st))"

definition send_key_changed :: "services \<Rightarrow> state \<Rightarrow> state option" where
  "send_key_changed srv st =
     (case node_tree st (myself st) of
        None \<Rightarrow> None
      | Some me \<Rightarrow>
          send_ans_keys srv (connection_tree st)
            (snd (send_request srv (Some (everyone srv))
                    (dec_int (KEY_CHANGED srv) @ '' '' @ hex_nat (rand srv (random_draws st))
                       @ '' '' @ name me)
                    (st\<lparr>random_draws := Suc (random_draws st)\<rparr>))))"

definition send_req_key :: "services \<Rightarrow> string \<Rightarrow> state \<Rightarrow> (bool \<times> state) option" where
  "send_req_key srv to_p st =
     (case node_tree st to_p of
        None \<Rightarrow> None
      | Some to_n \<Rightarrow>
          (case node_tree st (myself st) of
             None \<Rightarrow> None
           | Some me \<Rightarrow>
               (case nexthop_connection st to_n of
                  None \<Rightarrow> None
                | Some nc \<Rightarrow>
                    if experimental st \<and> OPTION_VERSION srv (options to_n) \<ge> 2 then
                      (case node_read_ecdsa_public_key srv to_n of
                         None \<Rightarrow>
                           Some (send_request srv nc
                                   (dec_int (REQ_KEY srv) @ '' '' @ name me @ '' '' @ name to_n)
                                   (snd (send_request srv nc
                                           (dec_int (REQ_KEY srv) @ '' '' @ name me @ '' ''
                                              @ name to_n @ '' '' @ dec_int (REQ_PUBKEY srv)) st)))
                       | Some k \<Rightarrow>
                           Some (send_request srv nc
                                   (dec_int (REQ_KEY srv) @ '' '' @ name me @ '' '' @ name to_n)
                                   (set_node to_p (to_n\<lparr>ecdsa := Some k\<rparr>) st)))
                    else
                      Some (send_request srv nc
                              (dec_int (REQ_KEY srv) @ '' '' @ name me @ '' '' @ name to_n) st))))"

subsection \<open>req\_key\_ext\_h (lines 96--126) and req\_key\_h (lines 128--182)\<close>

definition req_key_ext_h ::
  "services \<Rightarrow> connection_t \<Rightarrow> string \<Rightarrow> string \<Rightarrow> int \<Rightarrow> state \<Rightarrow> (bool \<times> state) option" where
  "req_key_ext_h srv c request from_p reqno st =
     (case node_tree st from_p of
        None \<Rightarrow> None
      | Some from_n \<Rightarrow>
          if reqno = REQ_PUBKEY srv then
            (case node_tree st (myself st) of
               None \<Rightarrow> None
             | Some me \<Rightarrow>
                 (case nexthop_connection st from_n of
                    None \<Rightarrow> None
                  | Some nc \<Rightarrow>
                      Some (True, snd (send_request srv nc
                              (dec_int (REQ_KEY srv) @ '' '' @ name me @ '' '' @ name from_n @ '' ''
                                 @ dec_int (ANS_PUBKEY srv) @ '' ''
                                 @ ecdsa_get_base64_public_key srv (myself_connection_ecdsa st)) st))))
          else if reqno = ANS_PUBKEY srv then
            (case node_read_ecdsa_public_key srv from_n of
               Some k \<Rightarrow>
                 Some (True, logger DEBUG_ALWAYS LOG_WARNING
                         (''Got ANS_PUBKEY from '' @ name from_n @ '' ('' @ hostname from_n
                            @ '') even though we already have his pubkey'')
                         (set_node from_p (from_n\<lparr>ecdsa := Some k\<rparr>) st))
             | None \<Rightarrow>
                 let args = sscanf request [SkipD, WS, SkipS, WS, SkipS, WS, SkipD, WS, ConvS 2048];
                     bad = logger DEBUG_ALWAYS LOG_ERR
                             (''Got bad ANS_PUBKEY from '' @ name from_n @ '' ('' @ hostname from_n
                                @ ''): invalid pubkey'') st
                 in if length args \<noteq> 1 then Some (True, bad)
                    else
                      (case ecdsa_set_base64_public_key srv (the_S (args ! 0)) of
                         None \<Rightarrow> Some (True, bad)
                       | Some k \<Rightarrow>
                           Some (True,
                             append_config_file (name from_n) ''ECDSAPublicKey'' (the_S (args ! 0))
                               (logger DEBUG_ALWAYS LOG_INFO
                                  (''Learned ECDSA public key from '' @ name from_n @ '' (''
                                     @ hostname from_n @ '')'')
                                  (set_node from_p (from_n\<lparr>ecdsa := Some k\<rparr>) st)))))
          else
            Some (True, logger DEBUG_ALWAYS LOG_ERR
                    (''Unknown extended REQ_KEY request from '' @ name from_n @ '' (''
                       @ hostname from_n @ ''): '' @ request) st))"

text \<open>The format \<open>"%*d " MAX_STRING " " MAX_STRING " %d"\<close>.\<close>

definition req_key_format :: "conv list" where
  "req_key_format = [SkipD, WS, ConvS 2048, WS, ConvS 2048, WS, ConvD]"

definition req_key_h :: "services \<Rightarrow> connection_t \<Rightarrow> string \<Rightarrow> state \<Rightarrow> (bool \<times> state) option" where
  "req_key_h srv c request st =
     (let args = sscanf request req_key_format in
      if length args < 2 then
        Some (False, logger DEBUG_ALWAYS LOG_ERR
                (''Got bad REQ_KEY from '' @ conn_name c @ '' ('' @ conn_hostname c @ '')'') st)
      else
        let from_name = the_S (args ! 0);
            to_name = the_S (args ! 1);
            reqno = optional_I args 2
        in if \<not> check_id srv from_name \<or> \<not> check_id srv to_name then
             Some (False, logger DEBUG_ALWAYS LOG_ERR
                     (''Got bad REQ_KEY from '' @ conn_name c @ '' ('' @ conn_hostname c
                        @ ''): invalid name'') st)
           else
             (case lookup_node from_name st of
                None \<Rightarrow>
                  Some (True, logger DEBUG_ALWAYS LOG_ERR
                          (''Got REQ_KEY from '' @ conn_name c @ '' ('' @ conn_hostname c
                             @ '') origin '' @ from_name
                             @ '' which does not exist in our connection list'') st)
              | Some from_n \<Rightarrow>
                  (case lookup_node to_name st of
                     None \<Rightarrow>
                       Some (True, logger DEBUG_ALWAYS LOG_ERR
                               (''Got REQ_KEY from '' @ conn_name c @ '' ('' @ conn_hostname c
                                  @ '') destination '' @ to_name
                                  @ '' which does not exist in our connection list'') st)
                   | Some to_n \<Rightarrow>
                       if to_name = myself st then
                         (if experimental st \<and> reqno \<noteq> 0 then
                            req_key_ext_h srv c request from_name reqno st
                          else
                            (case send_ans_key srv from_name st of
                               None \<Rightarrow> None
                             | Some (r, st1) \<Rightarrow> Some (True, st1)))
                       else if tunnelserver st then Some (True, st)
                       else if \<not> status_reachable to_n then
                         Some (True, logger DEBUG_ALWAYS LOG_WARNING
                                 (''Got REQ_KEY from '' @ conn_name c @ '' ('' @ conn_hostname c
                                    @ '') destination '' @ to_name @ '' which is not reachable'') st)
                       else
                         (case nexthop_connection st to_n of
                            None \<Rightarrow> None
                          | Some nc \<Rightarrow> Some (True, snd (send_request srv nc request st))))))"

subsection \<open>ans\_key\_h (lines 236--430)\<close>

text \<open>
  The handler is written in the order of the source, one definition per stretch of it,
  each running to the end of the function: \<open>ans_key_h\<close> (lines 245--276) parses the
  request and looks the two nodes up; \<open>ans_key_forward\<close> is the branch \<open>to != myself\<close>
  (lines 277--296); \<open>ans_key_terminal\<close> checks the algorithms and the compression level
  (lines 301--325); \<open>ans_key_modern\<close> is the ECDH branch up to the shared secret
  (lines 326--359), \<open>key_expansion\<close> and \<open>ans_key_update_crypto\<close> the rest of it
  (lines 363--402); \<open>ans_key_legacy\<close> is the old-style branch (lines 404--414);
  \<open>ans_key_finish\<close> is the end of the function (lines 417--429).
  \<open>from_p\<close> is the pointer \<open>from\<close>. The buffer \<open>key\<close> first holds the third field of the
  request; the decoders and \<open>prf\<close> write their output over its first bytes.
\<close>

definition ans_key_finish ::
  "services \<Rightarrow> string \<Rightarrow> string \<Rightarrow> string \<Rightarrow> state \<Rightarrow> (bool \<times> state) option" where
  "ans_key_finish srv from_p address_s port_s st =
     (case node_tree st from_p of
        None \<Rightarrow> None
      | Some from_n \<Rightarrow>
          let n1 = from_n\<lparr>status_validkey := True, sent_seqno := 0\<rparr>;
              st1 = (if address_s \<noteq> [] \<and> port_s \<noteq> []
                     then set_node from_p (update_node_udp n1 (str2sockaddr srv address_s port_s))
                            (logger DEBUG_PROTOCOL LOG_DEBUG
                               (''Using reflexive UDP address from '' @ name from_n @ '': ''
                                  @ address_s @ '' port '' @ port_s) st)
                     else set_node from_p n1 st)
          in Some (True, if options from_n AND OPTION_PMTU_DISCOVERY srv \<noteq> 0
                         then send_mtu_probe from_n st1 else st1))"

text \<open>
  Lines 363--381: where \<open>mykey\<close> and \<open>hiskey\<close> point in the buffer, the seed, and the
  call of \<open>prf\<close>, which writes \<open>hiskeylen * 2 + mykeylen * 2\<close> bytes at the start of the
  buffer. The result is what the two pointers see (the buffer from the pointer on);
  \<open>None\<close> is the failure of \<open>prf\<close>.
\<close>

definition key_expansion ::
  "services \<Rightarrow> string \<Rightarrow> string \<Rightarrow> nat \<Rightarrow> nat \<Rightarrow> string \<Rightarrow> string \<Rightarrow> (string \<times> string) option" where
  "key_expansion srv myself_name from_name mykeylen hiskeylen shared key =
     (if strcmp myself_name from_name < 0 then
        (case prf_bytes srv (take (ECDH_SHARED_SIZE srv) shared)
                (''tinc UDP key expansion '' @ myself_name @ '' '' @ from_name)
                (hiskeylen * 2 + mykeylen * 2) of
           None \<Rightarrow> None
         | Some out \<Rightarrow> Some (overwrite out key, drop (mykeylen * 2) (overwrite out key)))
      else
        (case prf_bytes srv (take (ECDH_SHARED_SIZE srv) shared)
                (''tinc UDP key expansion '' @ from_name @ '' '' @ myself_name)
                (hiskeylen * 2 + mykeylen * 2) of
           None \<Rightarrow> None
         | Some out \<Rightarrow> Some (drop (hiskeylen * 2) (overwrite out key), overwrite out key)))"

text \<open>
  Lines 363--402. The \<open>memmove\<close> of line 402 changes the local buffer only, after its
  last use, and has no counterpart here.
\<close>

definition ans_key_update_crypto ::
  "services \<Rightarrow> string \<Rightarrow> string \<Rightarrow> string \<Rightarrow> string \<Rightarrow> string \<Rightarrow> state \<Rightarrow> (bool \<times> state) option" where
  "ans_key_update_crypto srv from_p shared key address_s port_s st =
     (case node_tree st from_p of
        None \<Rightarrow> None
      | Some from_n \<Rightarrow>
          (case node_tree st (myself st) of
             None \<Rightarrow> None
           | Some me \<Rightarrow>
               (case key_expansion srv (name me) (name from_n) (cipher_keylength (incipher me))
                       (cipher_keylength (outcipher from_n)) shared key of
                  None \<Rightarrow> Some (True, st)
                | Some (mykey, hiskey) \<Rightarrow>
                    ans_key_finish srv from_p address_s port_s
                      (set_node from_p
                         (from_n
                            \<lparr>incipher :=
                               cipher_set_key
                                 (cipher_reopen srv (incipher from_n) (cipher_get_nid (incipher me)))
                                 mykey False,
                             indigest :=
                               digest_set_key
                                 (digest_reopen srv (indigest from_n) (digest_get_nid (indigest me))
                                    (int (digest_length (indigest me))))
                                 (drop (cipher_keylength (incipher me)) mykey)
                                 (cipher_keylength (incipher me)),
                             incompression := incompression me,
                             outcipher := cipher_set_key (outcipher from_n) hiskey True,
                             outdigest :=
                               digest_set_key (outdigest from_n)
                                 (drop (cipher_keylength (outcipher from_n)) hiskey)
                                 (cipher_keylength (outcipher from_n)),
                             received_seqno := 0,
                             late := reset_late st (late from_n)\<rparr>)
                         (st\<lparr>mykeyused := True\<rparr>)))))"

definition ans_key_modern ::
  "services \<Rightarrow> string \<Rightarrow> string \<Rightarrow> string \<Rightarrow> string \<Rightarrow> state \<Rightarrow> (bool \<times> state) option" where
  "ans_key_modern srv from_p key address_s port_s st =
     (case node_tree st from_p of
        None \<Rightarrow> None
      | Some from_n \<Rightarrow>
          (case node_read_ecdsa_public_key srv from_n of
             None \<Rightarrow>
               Some (True, logger DEBUG_ALWAYS LOG_ERR
                       (''No ECDSA public key known for '' @ name from_n @ '' ('' @ hostname from_n
                          @ ''), cannot verify ECDH key exchange!'') st)
           | Some pubkey \<Rightarrow>
               let st1 = set_node from_p (from_n\<lparr>ecdsa := Some pubkey\<rparr>) st;
                   siglen = ecdsa_size srv pubkey;
                   keylen = length (b64decode srv key);
                   key1 = overwrite (b64decode srv key) key
               in if keylen \<noteq> ECDH_SIZE srv + siglen then
                    Some (True, logger DEBUG_ALWAYS LOG_ERR
                            (''Node '' @ name from_n @ '' ('' @ hostname from_n
                               @ '') uses wrong keylength! '' @ dec_nat keylen @ '' != ''
                               @ dec_nat (ECDH_SIZE srv + siglen)) st1)
                  else if ECDH_SHARED_SIZE srv < cipher_keylength (outcipher from_n) then
                    Some (True, logger DEBUG_ALWAYS LOG_ERR
                            (''ECDH key too short for cipher of '' @ name from_n @ ''!'') st1)
                  else if \<not> ecdsa_verify srv pubkey (take (ECDH_SIZE srv) key1)
                              (take siglen (drop (ECDH_SIZE srv) key1)) then
                    Some (True, logger DEBUG_ALWAYS LOG_ERR
                            (''Possible intruder '' @ name from_n @ '' ('' @ hostname from_n
                               @ ''): invalid ECDSA signature'') st1)
                  else
                    (case (if ecdh from_n = None then send_ans_key_ecdh srv from_p st1
                           else Some (True, st1)) of
                       None \<Rightarrow> None
                     | Some (sent, st2) \<Rightarrow>
                         if \<not> sent then Some (True, st2)
                         else
                           (case node_tree st2 from_p of
                              None \<Rightarrow> None
                            | Some n2 \<Rightarrow>
                                (case ecdh_compute_shared srv (ecdh n2) (take (ECDH_SIZE srv) key1) of
                                   (handle, None) \<Rightarrow>
                                     Some (True, set_node from_p (n2\<lparr>ecdh := handle\<rparr>) st2)
                                 | (handle, Some shared) \<Rightarrow>
                                     ans_key_update_crypto srv from_p shared key1 address_s port_s
                                       (set_node from_p (n2\<lparr>ecdh := handle\<rparr>) st2))))))"

definition ans_key_legacy ::
  "services \<Rightarrow> string \<Rightarrow> string \<Rightarrow> string \<Rightarrow> string \<Rightarrow> state \<Rightarrow> (bool \<times> state) option" where
  "ans_key_legacy srv from_p key address_s port_s st =
     (case node_tree st from_p of
        None \<Rightarrow> None
      | Some from_n \<Rightarrow>
          let keylen = length (hex2bin srv key);
              key1 = overwrite (hex2bin srv key) key
          in if keylen \<noteq> cipher_keylength (outcipher from_n) then
               Some (True, logger DEBUG_ALWAYS LOG_ERR
                       (''Node '' @ name from_n @ '' ('' @ hostname from_n
                          @ '') uses wrong keylength!'') st)
             else
               ans_key_finish srv from_p address_s port_s
                 (set_node from_p
                    (from_n\<lparr>outcipher := cipher_set_key (outcipher from_n) key1 True,
                            outdigest := digest_set_key (outdigest from_n) key1 keylen\<rparr>) st))"

definition ans_key_terminal ::
  "services \<Rightarrow> string \<Rightarrow> string \<Rightarrow> int \<Rightarrow> int \<Rightarrow> int \<Rightarrow> int \<Rightarrow> string \<Rightarrow> string \<Rightarrow> state
     \<Rightarrow> (bool \<times> state) option" where
  "ans_key_terminal srv from_p key cipher digest maclength compression address_s port_s st =
     (case node_tree st from_p of
        None \<Rightarrow> None
      | Some from_n \<Rightarrow>
          (case cipher_open_by_nid srv cipher of
             None \<Rightarrow>
               Some (False, logger DEBUG_ALWAYS LOG_ERR
                       (''Node '' @ name from_n @ '' ('' @ hostname from_n
                          @ '') uses unknown cipher!'') st)
           | Some oc \<Rightarrow>
               (case digest_open_by_nid srv digest maclength of
                  None \<Rightarrow>
                    Some (False, logger DEBUG_ALWAYS LOG_ERR
                            (''Node '' @ name from_n @ '' ('' @ hostname from_n
                               @ '') uses unknown digest!'')
                            (set_node from_p (from_n\<lparr>outcipher := oc\<rparr>) st))
                | Some od \<Rightarrow>
                    if maclength \<noteq> int (digest_length od) then
                      Some (False, logger DEBUG_ALWAYS LOG_ERR
                              (''Node '' @ name from_n @ '' ('' @ hostname from_n
                                 @ '') uses bogus MAC length!'')
                              (set_node from_p (from_n\<lparr>outcipher := oc, outdigest := od\<rparr>) st))
                    else if compression < 0 \<or> compression > 11 then
                      Some (True, logger DEBUG_ALWAYS LOG_ERR
                              (''Node '' @ name from_n @ '' ('' @ hostname from_n
                                 @ '') uses bogus compression level!'')
                              (set_node from_p (from_n\<lparr>outcipher := oc, outdigest := od\<rparr>) st))
                    else if experimental st \<and> OPTION_VERSION srv (options from_n) \<ge> 2 then
                      ans_key_modern srv from_p key address_s port_s
                        (set_node from_p
                           (from_n\<lparr>outcipher := oc, outdigest := od, outcompression := compression\<rparr>)
                           st)
                    else
                      ans_key_legacy srv from_p key address_s port_s
                        (set_node from_p
                           (from_n\<lparr>outcipher := oc, outdigest := od, outcompression := compression\<rparr>)
                           st))))"

definition ans_key_forward ::
  "services \<Rightarrow> connection_t \<Rightarrow> string \<Rightarrow> node_t \<Rightarrow> node_t \<Rightarrow> string \<Rightarrow> string \<Rightarrow> state
     \<Rightarrow> (bool \<times> state) option" where
  "ans_key_forward srv c request from_n to_n to_name address_s st =
     (if tunnelserver st then Some (True, st)
      else if \<not> status_reachable to_n then
        Some (True, logger DEBUG_ALWAYS LOG_WARNING
                (''Got ANS_KEY from '' @ conn_name c @ '' ('' @ conn_hostname c
                   @ '') destination '' @ to_name @ '' which is not reachable'') st)
      else if address_s = [] \<and> sa_family (address from_n) \<noteq> AF_UNSPEC then
        (case nexthop_connection st to_n of
           None \<Rightarrow> None
         | Some nc \<Rightarrow>
             Some (True, snd (send_request srv nc
                                (request @ '' '' @ fst (sockaddr2str srv (address from_n)) @ '' ''
                                   @ snd (sockaddr2str srv (address from_n)))
                                (logger DEBUG_PROTOCOL LOG_DEBUG
                                   (''Appending reflexive UDP address to ANS_KEY from ''
                                      @ name from_n @ '' to '' @ name to_n) st))))
      else
        (case nexthop_connection st to_n of
           None \<Rightarrow> None
         | Some nc \<Rightarrow> Some (send_request srv nc request st)))"

text \<open>
  The format \<open>"%*d "MAX_STRING" "MAX_STRING" "MAX_STRING" %d %d %d %d "MAX_STRING" "MAX_STRING\<close>.
\<close>

definition ans_key_format :: "conv list" where
  "ans_key_format =
     [SkipD, WS, ConvS 2048, WS, ConvS 2048, WS, ConvS 2048, WS, ConvD, WS, ConvD, WS, ConvD,
      WS, ConvD, WS, ConvS 2048, WS, ConvS 2048]"

definition ans_key_h :: "services \<Rightarrow> connection_t \<Rightarrow> string \<Rightarrow> state \<Rightarrow> (bool \<times> state) option" where
  "ans_key_h srv c request st =
     (let args = sscanf request ans_key_format in
      if length args < 7 then
        Some (False, logger DEBUG_ALWAYS LOG_ERR
                (''Got bad ANS_KEY from '' @ conn_name c @ '' ('' @ conn_hostname c @ '')'') st)
      else
        let from_name = the_S (args ! 0);
            to_name = the_S (args ! 1);
            key = the_S (args ! 2);
            cipher = the_I (args ! 3);
            digest = the_I (args ! 4);
            maclength = the_I (args ! 5);
            compression = the_I (args ! 6);
            address_s = optional_S args 7;
            port_s = optional_S args 8
        in if \<not> check_id srv from_name \<or> \<not> check_id srv to_name then
             Some (False, logger DEBUG_ALWAYS LOG_ERR
                     (''Got bad ANS_KEY from '' @ conn_name c @ '' ('' @ conn_hostname c
                        @ ''): invalid name'') st)
           else
             (case lookup_node from_name st of
                None \<Rightarrow>
                  Some (True, logger DEBUG_ALWAYS LOG_ERR
                          (''Got ANS_KEY from '' @ conn_name c @ '' ('' @ conn_hostname c
                             @ '') origin '' @ from_name
                             @ '' which does not exist in our connection list'') st)
              | Some from_n \<Rightarrow>
                  (case lookup_node to_name st of
                     None \<Rightarrow>
                       Some (True, logger DEBUG_ALWAYS LOG_ERR
                               (''Got ANS_KEY from '' @ conn_name c @ '' ('' @ conn_hostname c
                                  @ '') destination '' @ to_name
                                  @ '' which does not exist in our connection list'') st)
                   | Some to_n \<Rightarrow>
                       if to_name \<noteq> myself st then
                         ans_key_forward srv c request from_n to_n to_name address_s st
                       else
                         ans_key_terminal srv from_name key cipher digest maclength
                           compression address_s port_s st)))"

section \<open>Runs of the handlers\<close>

text \<open>
  The process calls one function of the file after the other (the handlers when a
  request comes in, the senders from the layers around), each on the state the one
  before left; a run stops (\<open>None\<close>) where a function dereferences a NULL pointer.
\<close>

datatype call =
    Key_changed connection_t string
  | Req_key connection_t string
  | Ans_key connection_t string
  | Send_ans_key string
  | Send_req_key string
  | Send_key_changed

fun handle :: "services \<Rightarrow> call \<Rightarrow> state \<Rightarrow> state option" where
  "handle srv (Key_changed c request) st = Some (snd (key_changed_h c request st))"
| "handle srv (Req_key c request) st = map_option snd (req_key_h srv c request st)"
| "handle srv (Ans_key c request) st = map_option snd (ans_key_h srv c request st)"
| "handle srv (Send_ans_key to_p) st = map_option snd (send_ans_key srv to_p st)"
| "handle srv (Send_req_key to_p) st = map_option snd (send_req_key srv to_p st)"
| "handle srv Send_key_changed st = send_key_changed srv st"

fun run :: "services \<Rightarrow> call list \<Rightarrow> state \<Rightarrow> state option" where
  "run srv [] st = Some st"
| "run srv (e # es) st = (case handle srv e st of None \<Rightarrow> None | Some st' \<Rightarrow> run srv es st')"

text \<open>How often \<open>forward_request\<close> was called with a request.\<close>

definition forwards_of :: "string \<Rightarrow> state \<Rightarrow> nat" where
  "forwards_of request st = length (filter (\<lambda>e. snd e = request) (requests_forwarded st))"

text \<open>The calls of \<open>logger\<close> whose message starts with "Possible intruder".\<close>

definition intruder_warning :: "debug_t \<times> priority \<times> string \<Rightarrow> bool" where
  "intruder_warning e = (take 17 (snd (snd e)) = ''Possible intruder'')"

definition intruder_warnings :: "state \<Rightarrow> (debug_t \<times> priority \<times> string) list" where
  "intruder_warnings st = filter intruder_warning (logged st)"

text \<open>
  What the flood of \<open>KEY_CHANGED\<close> rests on, between two states: the cache of past
  requests and the calls of \<open>forward_request\<close> are the same.
\<close>

definition flood_frame :: "state \<Rightarrow> state \<Rightarrow> bool" where
  "flood_frame st st' =
     (past_request_tree st' = past_request_tree st \<and> requests_forwarded st' = requests_forwarded st)"

text \<open>
  The invariant of a run, for a request \<open>q\<close> that \<open>forward_request\<close> had been called with
  \<open>k\<close> times at the start: once \<open>q\<close> is in the cache it has been forwarded at most once
  more, and not at all before.
\<close>

definition flood_inv :: "string \<Rightarrow> nat \<Rightarrow> state \<Rightarrow> bool" where
  "flood_inv q k st =
     (if q \<in> past_request_tree st then forwards_of q st \<le> k + 1 else forwards_of q st = k)"

section \<open>A small mesh to run the handlers on\<close>

text \<open>
  Toy services: two ciphers (NID 1 with 2 key bytes, NID 2 with 3), one digest (NID 2,
  MAC length 4), identity codecs, an ECDSA whose signature is the first two bytes of
  the key, 4-byte ECDH points, 8-byte shared secrets. Four nodes: \<open>alice\<close> (ourselves) and
  \<open>carol\<close> speak protocol version 2, \<open>bob\<close> and \<open>dave\<close> version 0; \<open>dave\<close> is not reachable.
\<close>

definition id_char :: "char \<Rightarrow> bool" where
  "id_char c = (isdigit c \<or> (CHR ''a'' \<le> c \<and> c \<le> CHR ''z'') \<or> (CHR ''A'' \<le> c \<and> c \<le> CHR ''Z'')
                \<or> c = CHR ''_'')"

definition demo_cipher :: "int \<Rightarrow> nat \<Rightarrow> string \<Rightarrow> cipher_t" where
  "demo_cipher nid len k =
     \<lparr>cipher_get_nid = nid, cipher_keylength = len, cipher_key = k, cipher_encrypt = False\<rparr>"

definition demo_digest :: "string \<Rightarrow> digest_t" where
  "demo_digest k = \<lparr>digest_get_nid = 2, digest_length = 4, digest_key = k\<rparr>"

definition demo_services :: services where
  "demo_services =
     \<lparr>KEY_CHANGED = 14, REQ_KEY = 15, ANS_KEY = 16, REQ_PUBKEY = 19, ANS_PUBKEY = 20,
      OPTION_VERSION = (\<lambda>x. unat (drop_bit 24 x)),
      OPTION_PMTU_DISCOVERY = 4,
      ECDH_SIZE = 4,
      ECDH_SHARED_SIZE = 8,
      check_id = (\<lambda>s. s \<noteq> [] \<and> list_all id_char s),
      cipher_open_by_nid =
        (\<lambda>nid. if nid = 1 then Some (demo_cipher 1 2 [])
                else if nid = 2 then Some (demo_cipher 2 3 [])
                else if nid = 3 then Some (demo_cipher 3 9 []) else None),
      digest_open_by_nid = (\<lambda>nid maclength. if nid = 2 then Some (demo_digest []) else None),
      ecdsa_size = (\<lambda>k. 2),
      ecdsa_sign = (\<lambda>k msg. Some (take 2 k)),
      ecdsa_verify = (\<lambda>k msg sig. sig = take 2 k),
      ecdsa_get_base64_public_key = (\<lambda>k. k),
      ecdsa_set_base64_public_key = (\<lambda>s. if length s < 2 then None else Some s),
      config_ecdsa_public_key = (\<lambda>nm. None),
      ecdh_generate_public = (\<lambda>n. (Some ''e'', Some ''GGGG'')),
      ecdh_compute_shared =
        (\<lambda>h point. (None, if h = None \<or> point = ''0000'' then None else Some (point @ point))),
      prf_bytes = (\<lambda>secret seed n. Some (take n (rev seed @ secret @ replicate n (CHR ''.'')))),
      b64encode = (\<lambda>s. s),
      b64decode = (\<lambda>s. s),
      bin2hex = (\<lambda>s. s),
      hex2bin = (\<lambda>s. s),
      randomize = (\<lambda>n len. replicate len (CHR ''r'')),
      sockaddr2str = (\<lambda>sa. (sa_host sa, sa_port sa)),
      str2sockaddr = (\<lambda>h p. \<lparr>sa_family = 2, sa_host = h, sa_port = p\<rparr>),
      send_meta = (\<lambda>c msg. True),
      everyone = 0,
      rand = (\<lambda>n. 7982 + n)\<rparr>"

definition demo_node :: "string \<Rightarrow> 32 word \<Rightarrow> nat \<Rightarrow> node_t" where
  "demo_node nm opts conn =
     \<lparr>name = nm, hostname = nm @ ''.example'', options = opts,
      status_reachable = True, status_validkey = True, last_req_key = 7,
      nexthop = Some nm, connection = Some conn, ecdsa = None, ecdh = None,
      incipher = demo_cipher 1 2 ''ab'', indigest = demo_digest ''ab'', incompression = 0,
      outcipher = demo_cipher 1 2 ''cd'', outdigest = demo_digest ''cd'', outcompression = 5,
      received_seqno = 9, sent_seqno = 9, late = ''xyz'',
      address = \<lparr>sa_family = 2, sa_host = ''203.0.113.5'', sa_port = ''1655''\<rparr>\<rparr>"

definition alice :: node_t where
  "alice = (demo_node ''alice'' 0x02000000 0)\<lparr>ecdsa := Some ''KA''\<rparr>"

definition bob :: node_t where
  "bob = demo_node ''bob'' 0 1"

definition carol :: node_t where
  "carol = (demo_node ''carol'' 0x02000000 2)
             \<lparr>ecdsa := Some ''KC'', ecdh := Some ''e'', incipher := demo_cipher 2 3 ''abc''\<rparr>"

definition dave :: node_t where
  "dave = (demo_node ''dave'' 0 3)\<lparr>status_reachable := False, nexthop := None\<rparr>"

definition demo_conn :: connection_t where
  "demo_conn = \<lparr>conn_id = 1, conn_name = ''bob'', conn_hostname = ''bob.example'',
                 conn_active = True, conn_node = Some ''bob''\<rparr>"

definition demo_state :: state where
  "demo_state =
     \<lparr>myself = ''alice'',
      node_tree = map_of [(''alice'', alice), (''bob'', bob), (''carol'', carol), (''dave'', dave)],
      myself_connection_ecdsa = ''KA'',
      connection_tree = [demo_conn],
      past_request_tree = {},
      mykeyused = False,
      experimental = True,
      tunnelserver = False,
      replaywin = 2,
      random_draws = 0,
      logged = [],
      requests_sent = [],
      requests_forwarded = [],
      mtu_probes = [],
      config_appended = []\<rparr>"


section \<open>What sscanf reads\<close>

text \<open>
  Every number \<open>sscanf\<close> assigns is a value of \<open>int\<close>; a number in that range is read
  as it is written.
\<close>

lemma to_int32_range: "- 2147483648 \<le> to_int32 v \<and> to_int32 v \<le> 2147483647"
  by (simp add: to_int32_def)

lemma to_int32_id:
  "- 2147483648 \<le> v \<Longrightarrow> v \<le> 2147483647 \<Longrightarrow> to_int32 (strtol_clamp v) = v"
  by (simp add: to_int32_def strtol_clamp_def)

lemma scan_int_range:
  "scan_int s = Some (v, r) \<Longrightarrow> - 2147483648 \<le> v \<and> v \<le> 2147483647"
  using to_int32_range
  by (auto simp: scan_int_def Let_def split: prod.splits if_splits)

text \<open>
  Numbers past the range of \<open>int\<close> keep their low 32 bits: \<open>4294967297\<close> is cipher 1,
  \<open>4294967296\<close> is compression 0 and \<open>reqno\<close> 0. A \<open>0x\<close> with no digit behind it is a
  complete \<open>%*x\<close>, and the name is what follows it; with nothing behind it the name is
  missing.
\<close>

lemma sscanf_int_wraps:
  "sscanf ''16 bob alice kk 4294967297 2 4 0'' ans_key_format
     = [AStr ''bob'', AStr ''alice'', AStr ''kk'', AInt 1, AInt 2, AInt 4, AInt 0]"
  "sscanf ''16 bob alice kk 1 2 4 4294967296'' ans_key_format
     = [AStr ''bob'', AStr ''alice'', AStr ''kk'', AInt 1, AInt 2, AInt 4, AInt 0]"
  "sscanf ''16 carol alice GGGGKx 4294967298 2 4 -1'' ans_key_format
     = [AStr ''carol'', AStr ''alice'', AStr ''GGGGKx'', AInt 2, AInt 2, AInt 4, AInt (- 1)]"
  "sscanf ''15 bob alice 4294967296'' req_key_format = [AStr ''bob'', AStr ''alice'', AInt 0]"
  "sscanf ''15 bob alice 2147483648'' req_key_format
     = [AStr ''bob'', AStr ''alice'', AInt (- 2147483648)]"
  by code_simp+

lemma sscanf_hex_prefix:
  "sscanf ''14 0x bob'' key_changed_format = [AStr ''bob'']"
  "sscanf ''14 0x'' key_changed_format = []"
  "sscanf ''14 0xg bob'' key_changed_format = [AStr ''g'']"
  "sscanf ''14 -0X1f bob'' key_changed_format = [AStr ''bob'']"
  "sscanf ''14 x bob'' key_changed_format = []"
  by code_simp+

text \<open>
  The handlers on such requests: the old-style key \<open>kk\<close> of bob is installed under
  cipher 1 and compression 0; a \<open>REQ_KEY\<close> with \<open>reqno\<close> \<open>4294967296\<close> is answered by
  \<open>send_ans_key\<close>; \<open>14 0x bob\<close> is a \<open>KEY_CHANGED\<close> of bob, and \<open>14 0x\<close> is a bad
  request.
\<close>

lemma ans_key_h_wrapped_cipher:
  "map_option (\<lambda>(r, s). (r, map_option (\<lambda>n. (cipher_get_nid (outcipher n), cipher_key (outcipher n),
                                               outcompression n, status_validkey n))
                                   (node_tree s ''bob''), logged s))
     (ans_key_h demo_services demo_conn ''16 bob alice kk 4294967297 2 4 0'' demo_state)
     = Some (True, Some (1, ''kk'', 0, True), [])"
  by code_simp

lemma ans_key_h_wrapped_compression:
  "map_option (\<lambda>(r, s). (r, map_option (\<lambda>n. (cipher_get_nid (outcipher n), cipher_key (outcipher n),
                                               outcompression n, status_validkey n))
                                   (node_tree s ''bob''), logged s))
     (ans_key_h demo_services demo_conn ''16 bob alice kk 1 2 4 4294967296'' demo_state)
     = Some (True, Some (1, ''kk'', 0, True), [])"
  by code_simp

lemma ans_key_h_wrapped_intruder:
  "map_option (\<lambda>(r, s). (r, logged s))
     (ans_key_h demo_services demo_conn ''16 carol alice GGGGKx 2 2 4 4294967296'' demo_state)
     = Some (True, [(DEBUG_ALWAYS, LOG_ERR,
                     ''Possible intruder carol (carol.example): invalid ECDSA signature'')])"
  by code_simp

lemma req_key_h_wrapped_reqno:
  "map_option (\<lambda>(r, s). (r, requests_sent s))
     (req_key_h demo_services demo_conn ''15 bob alice 4294967296'' demo_state)
     = Some (True, [(Some 1, ''16 alice bob rr 1 2 4 0'')])"
  by code_simp

lemma key_changed_h_hex_prefix:
  "(\<lambda>(r, s). (r, map_option status_validkey (node_tree s ''bob''), requests_forwarded s))
     (key_changed_h demo_conn ''14 0x bob'' demo_state)
     = (True, Some False, [(1, ''14 0x bob'')])"
  "(\<lambda>(r, s). (r, map_option status_validkey (node_tree s ''bob''), requests_forwarded s, logged s))
     (key_changed_h demo_conn ''14 0x'' demo_state)
     = (False, Some True, [],
        [(DEBUG_ALWAYS, LOG_ERR, ''Got bad KEY_CHANGED from bob (bob.example)'')])"
  by code_simp+


section \<open>The handlers and the flood\<close>

lemma flood_frame_basic [simp]:
  "flood_frame st st"
  "flood_frame st (logger l p m st') = flood_frame st st'"
  "flood_frame st (set_node k n st') = flood_frame st st'"
  "flood_frame st (snd (send_request srv nc m st')) = flood_frame st st'"
  "flood_frame st (send_mtu_probe n st') = flood_frame st st'"
  "flood_frame st (append_config_file a b d st') = flood_frame st st'"
  "flood_frame st (st'\<lparr>random_draws := r\<rparr>) = flood_frame st st'"
  "flood_frame st (st'\<lparr>mykeyused := u\<rparr>) = flood_frame st st'"
  by (simp_all add: flood_frame_def logger_def set_node_def send_request_def send_mtu_probe_def
        append_config_file_def)

lemma send_ans_key_ecdh_frame:
  "send_ans_key_ecdh srv p st = Some res \<Longrightarrow> flood_frame st0 (snd res) = flood_frame st0 st"
  by (auto simp: send_ans_key_ecdh_def Let_def split: option.splits prod.splits)

lemma send_ans_key_frame:
  "send_ans_key srv p st = Some res \<Longrightarrow> flood_frame st0 (snd res) = flood_frame st0 st"
  by (auto simp: send_ans_key_def Let_def send_ans_key_ecdh_frame
           split: option.splits prod.splits if_splits)

lemma send_ans_keys_frame:
  "send_ans_keys srv cs st = Some st' \<Longrightarrow> flood_frame st0 st' = flood_frame st0 st"
proof (induction cs arbitrary: st)
  case Nil
  then show ?case by simp
next
  case (Cons c cs)
  then show ?case
    by (auto split: option.splits if_splits dest!: send_ans_key_frame [where ?st0.0 = st0])
qed

lemma send_key_changed_frame:
  "send_key_changed srv st = Some st' \<Longrightarrow> flood_frame st0 st' = flood_frame st0 st"
  by (auto simp: send_key_changed_def split: option.splits dest!: send_ans_keys_frame [where ?st0.0 = st0])

lemma send_req_key_frame:
  "send_req_key srv p st = Some res \<Longrightarrow> flood_frame st0 (snd res) = flood_frame st0 st"
  by (auto simp: send_req_key_def split: option.splits if_splits)

lemma req_key_ext_h_frame:
  "req_key_ext_h srv c request p reqno st = Some res
   \<Longrightarrow> flood_frame st0 (snd res) = flood_frame st0 st"
  by (auto simp: req_key_ext_h_def Let_def split: option.splits prod.splits if_splits)

lemma req_key_h_frame:
  "req_key_h srv c request st = Some res \<Longrightarrow> flood_frame st0 (snd res) = flood_frame st0 st"
  by (auto simp: req_key_h_def Let_def req_key_ext_h_frame lookup_node_def
           dest!: send_ans_key_frame [where ?st0.0 = st0]
           split: option.splits prod.splits if_splits)

lemma ans_key_finish_frame:
  "ans_key_finish srv p a po st = Some res \<Longrightarrow> flood_frame st0 (snd res) = flood_frame st0 st"
  by (auto simp: ans_key_finish_def Let_def split: option.splits prod.splits if_splits)

lemma ans_key_update_crypto_frame:
  "ans_key_update_crypto srv p sh k a po st = Some res
   \<Longrightarrow> flood_frame st0 (snd res) = flood_frame st0 st"
  by (auto simp: ans_key_update_crypto_def Let_def ans_key_finish_frame
           split: option.splits prod.splits if_splits)

lemma ans_key_modern_frame:
  "ans_key_modern srv p k a po st = Some res \<Longrightarrow> flood_frame st0 (snd res) = flood_frame st0 st"
  by (auto simp: ans_key_modern_def Let_def ans_key_update_crypto_frame
           dest!: send_ans_key_ecdh_frame [where ?st0.0 = st0]
           split: option.splits prod.splits if_splits)

lemma ans_key_legacy_frame:
  "ans_key_legacy srv p k a po st = Some res \<Longrightarrow> flood_frame st0 (snd res) = flood_frame st0 st"
  by (auto simp: ans_key_legacy_def Let_def ans_key_finish_frame
           split: option.splits prod.splits if_splits)

lemma ans_key_terminal_frame:
  "ans_key_terminal srv p k ci di ma co a po st = Some res
   \<Longrightarrow> flood_frame st0 (snd res) = flood_frame st0 st"
  by (auto simp: ans_key_terminal_def Let_def ans_key_legacy_frame ans_key_modern_frame
           split: option.splits prod.splits if_splits)

lemma ans_key_forward_frame:
  "ans_key_forward srv c request f t tn a st = Some res
   \<Longrightarrow> flood_frame st0 (snd res) = flood_frame st0 st"
  by (auto simp: ans_key_forward_def Let_def split: option.splits prod.splits if_splits)

lemma ans_key_h_frame:
  "ans_key_h srv c request st = Some res \<Longrightarrow> flood_frame st0 (snd res) = flood_frame st0 st"
  by (auto simp: ans_key_h_def Let_def ans_key_forward_frame ans_key_terminal_frame
           split: option.splits prod.splits if_splits)

text \<open>The three ways through \<open>key_changed_h\<close> for a request that parses.\<close>

lemma key_changed_h_seen:
  assumes "sscanf request key_changed_format = [AStr origin]"
    and "request \<in> past_request_tree st"
  shows "key_changed_h c request st = (True, st)"
  using assms by (simp add: key_changed_h_def seen_request_def insert_absorb)

lemma key_changed_h_unknown:
  assumes "sscanf request key_changed_format = [AStr origin]"
    and "request \<notin> past_request_tree st"
    and "lookup_node origin st = None"
  shows "key_changed_h c request st =
           (True, logger DEBUG_ALWAYS LOG_ERR
                    (''Got KEY_CHANGED from '' @ conn_name c @ '' ('' @ conn_hostname c
                        @ '') origin '' @ origin @ '' which does not exist'')
                    (st\<lparr>past_request_tree := insert request (past_request_tree st)\<rparr>))"
  using assms by (simp add: key_changed_h_def seen_request_def lookup_node_def)

lemma key_changed_h_known:
  assumes "sscanf request key_changed_format = [AStr origin]"
    and "request \<notin> past_request_tree st"
    and "lookup_node origin st = Some n"
  shows "key_changed_h c request st =
           (True, (if tunnelserver st then (\<lambda>s. s) else forward_request c request)
                    (set_node origin (n\<lparr>status_validkey := False, last_req_key := 0\<rparr>)
                       (st\<lparr>past_request_tree := insert request (past_request_tree st)\<rparr>)))"
  using assms
  by (simp add: key_changed_h_def seen_request_def lookup_node_def set_node_def Let_def)

lemma sscanf_key_changed_cases:
  "length (sscanf request key_changed_format) \<noteq> 1
   \<or> (\<exists>origin. sscanf request key_changed_format = [AStr origin])"
  by (auto simp: key_changed_format_def split: option.splits)

lemma key_changed_h_parse_fail:
  "length (sscanf request key_changed_format) \<noteq> 1 \<Longrightarrow>
   flood_frame st (snd (key_changed_h c request st))"
  by (simp add: key_changed_h_def)

lemma key_changed_h_cache:
  "past_request_tree st \<subseteq> past_request_tree (snd (key_changed_h c request st))"
  by (auto simp: key_changed_h_def seen_request_def logger_def set_node_def forward_request_def
        Let_def split: option.splits)

lemma key_changed_h_cache_other:
  "q \<noteq> request \<Longrightarrow>
   (q \<in> past_request_tree (snd (key_changed_h c request st))) = (q \<in> past_request_tree st)"
  by (auto simp: key_changed_h_def seen_request_def logger_def set_node_def forward_request_def
        Let_def split: option.splits)

lemma key_changed_h_forwards_other:
  "q \<noteq> request \<Longrightarrow> forwards_of q (snd (key_changed_h c request st)) = forwards_of q st"
  by (auto simp: key_changed_h_def seen_request_def logger_def set_node_def forward_request_def
        forwards_of_def Let_def split: option.splits)

lemma key_changed_h_forwards_first:
  "request \<notin> past_request_tree st \<Longrightarrow>
   forwards_of request (snd (key_changed_h c request st)) \<le> forwards_of request st + 1
   \<and> (request \<in> past_request_tree (snd (key_changed_h c request st))
        \<or> forwards_of request (snd (key_changed_h c request st)) = forwards_of request st)"
  by (auto simp: key_changed_h_def seen_request_def logger_def set_node_def forward_request_def
        forwards_of_def Let_def split: option.splits)

lemma key_changed_h_forwards_seen:
  "request \<in> past_request_tree st \<Longrightarrow>
   forwards_of request (snd (key_changed_h c request st)) = forwards_of request st
   \<and> request \<in> past_request_tree (snd (key_changed_h c request st))"
  by (auto simp: key_changed_h_def seen_request_def logger_def set_node_def forward_request_def
        forwards_of_def Let_def insert_absorb split: option.splits)

lemma flood_frame_inv:
  "flood_frame st st' \<Longrightarrow> flood_inv q k st' = flood_inv q k st"
  by (simp add: flood_frame_def flood_inv_def forwards_of_def)

lemma flood_frame_sym: "flood_frame st' st' = flood_frame st' st \<Longrightarrow> flood_frame st st'"
  by (auto simp: flood_frame_def)

lemma handle_flood_inv:
  assumes "handle srv e st = Some st'" and "flood_inv q k st"
  shows "flood_inv q k st'"
proof (cases e)
  case (Key_changed c request)
  then have st': "st' = snd (key_changed_h c request st)" using assms(1) by simp
  show ?thesis
  proof (cases "q = request")
    case True
    then show ?thesis
      using assms(2) key_changed_h_forwards_first [of request st c]
        key_changed_h_forwards_seen [of request st c]
      unfolding st' flood_inv_def by (auto split: if_splits)
  next
    case False
    then show ?thesis
      using assms(2) key_changed_h_cache_other [of q request c st]
        key_changed_h_forwards_other [of q request c st]
      unfolding st' flood_inv_def by (auto split: if_splits)
  qed
next
  case (Req_key c request)
  then obtain res where "req_key_h srv c request st = Some res" "st' = snd res"
    using assms(1) by auto
  then have "flood_frame st st'"
    using req_key_h_frame [of srv c request st res st'] by (simp add: flood_frame_sym)
  then show ?thesis using assms(2) by (simp add: flood_frame_inv)
next
  case (Ans_key c request)
  then obtain res where "ans_key_h srv c request st = Some res" "st' = snd res"
    using assms(1) by auto
  then have "flood_frame st st'"
    using ans_key_h_frame [of srv c request st res st'] by (simp add: flood_frame_sym)
  then show ?thesis using assms(2) by (simp add: flood_frame_inv)
next
  case (Send_ans_key p)
  then obtain res where "send_ans_key srv p st = Some res" "st' = snd res"
    using assms(1) by auto
  then have "flood_frame st st'"
    using send_ans_key_frame [of srv p st res st'] by (simp add: flood_frame_sym)
  then show ?thesis using assms(2) by (simp add: flood_frame_inv)
next
  case (Send_req_key p)
  then obtain res where "send_req_key srv p st = Some res" "st' = snd res"
    using assms(1) by auto
  then have "flood_frame st st'"
    using send_req_key_frame [of srv p st res st'] by (simp add: flood_frame_sym)
  then show ?thesis using assms(2) by (simp add: flood_frame_inv)
next
  case Send_key_changed
  then have "send_key_changed srv st = Some st'"
    using assms(1) by simp
  then have "flood_frame st st'"
    using send_key_changed_frame [of srv st st' st'] by (simp add: flood_frame_sym)
  then show ?thesis using assms(2) by (simp add: flood_frame_inv)
qed

lemma run_flood_inv:
  "run srv es st = Some st' \<Longrightarrow> flood_inv q k st \<Longrightarrow> flood_inv q k st'"
proof (induction es arbitrary: st)
  case Nil
  then show ?case by simp
next
  case (Cons e es)
  then show ?case by (auto split: option.splits dest: handle_flood_inv)
qed

lemma handle_cache_mono:
  assumes "handle srv e st = Some st'" and "q \<in> past_request_tree st"
  shows "q \<in> past_request_tree st'"
proof (cases e)
  case (Key_changed c request)
  then show ?thesis using assms key_changed_h_cache [of st c request] by auto
next
  case (Req_key c request)
  then obtain res where "req_key_h srv c request st = Some res" "st' = snd res"
    using assms(1) by auto
  then have "flood_frame st st'"
    using req_key_h_frame [of srv c request st res st'] by (simp add: flood_frame_sym)
  then show ?thesis using assms(2) by (simp add: flood_frame_def)
next
  case (Ans_key c request)
  then obtain res where "ans_key_h srv c request st = Some res" "st' = snd res"
    using assms(1) by auto
  then have "flood_frame st st'"
    using ans_key_h_frame [of srv c request st res st'] by (simp add: flood_frame_sym)
  then show ?thesis using assms(2) by (simp add: flood_frame_def)
next
  case (Send_ans_key p)
  then obtain res where "send_ans_key srv p st = Some res" "st' = snd res"
    using assms(1) by auto
  then have "flood_frame st st'"
    using send_ans_key_frame [of srv p st res st'] by (simp add: flood_frame_sym)
  then show ?thesis using assms(2) by (simp add: flood_frame_def)
next
  case (Send_req_key p)
  then obtain res where "send_req_key srv p st = Some res" "st' = snd res"
    using assms(1) by auto
  then have "flood_frame st st'"
    using send_req_key_frame [of srv p st res st'] by (simp add: flood_frame_sym)
  then show ?thesis using assms(2) by (simp add: flood_frame_def)
next
  case Send_key_changed
  then have "send_key_changed srv st = Some st'"
    using assms(1) by simp
  then have "flood_frame st st'"
    using send_key_changed_frame [of srv st st' st'] by (simp add: flood_frame_sym)
  then show ?thesis using assms(2) by (simp add: flood_frame_def)
qed

lemma run_cache_mono:
  "run srv es st = Some st' \<Longrightarrow> q \<in> past_request_tree st \<Longrightarrow> q \<in> past_request_tree st'"
proof (induction es arbitrary: st)
  case Nil
  then show ?case by simp
next
  case (Cons e es)
  then show ?case by (auto split: option.splits dest: handle_cache_mono)
qed

section \<open>KEY\_CHANGED: deduplication and the unknown origin\<close>

lemma handle_seen_forwards:
  assumes "handle srv e st = Some st'" and "q \<in> past_request_tree st"
  shows "forwards_of q st' = forwards_of q st"
proof (cases e)
  case (Key_changed c request)
  then have st': "st' = snd (key_changed_h c request st)" using assms(1) by simp
  show ?thesis
    using assms(2) key_changed_h_forwards_seen [of request st c]
      key_changed_h_forwards_other [of q request c st]
    unfolding st' by (cases "q = request") auto
next
  case (Req_key c request)
  then obtain res where "req_key_h srv c request st = Some res" "st' = snd res"
    using assms(1) by auto
  then have "flood_frame st st'"
    using req_key_h_frame [of srv c request st res st'] by (simp add: flood_frame_sym)
  then show ?thesis by (simp add: flood_frame_def forwards_of_def)
next
  case (Ans_key c request)
  then obtain res where "ans_key_h srv c request st = Some res" "st' = snd res"
    using assms(1) by auto
  then have "flood_frame st st'"
    using ans_key_h_frame [of srv c request st res st'] by (simp add: flood_frame_sym)
  then show ?thesis by (simp add: flood_frame_def forwards_of_def)
next
  case (Send_ans_key p)
  then obtain res where "send_ans_key srv p st = Some res" "st' = snd res"
    using assms(1) by auto
  then have "flood_frame st st'"
    using send_ans_key_frame [of srv p st res st'] by (simp add: flood_frame_sym)
  then show ?thesis by (simp add: flood_frame_def forwards_of_def)
next
  case (Send_req_key p)
  then obtain res where "send_req_key srv p st = Some res" "st' = snd res"
    using assms(1) by auto
  then have "flood_frame st st'"
    using send_req_key_frame [of srv p st res st'] by (simp add: flood_frame_sym)
  then show ?thesis by (simp add: flood_frame_def forwards_of_def)
next
  case Send_key_changed
  then have "send_key_changed srv st = Some st'"
    using assms(1) by simp
  then have "flood_frame st st'"
    using send_key_changed_frame [of srv st st' st'] by (simp add: flood_frame_sym)
  then show ?thesis by (simp add: flood_frame_def forwards_of_def)
qed

lemma run_seen_forwards:
  "run srv es st = Some st' \<Longrightarrow> q \<in> past_request_tree st \<Longrightarrow> forwards_of q st' = forwards_of q st"
proof (induction es arbitrary: st)
  case Nil
  then show ?case by simp
next
  case (Cons e es)
  from Cons.prems(1) obtain st1 where h: "handle srv e st = Some st1" and r: "run srv es st1 = Some st'"
    by (auto split: option.splits)
  have "q \<in> past_request_tree st1" using handle_cache_mono [OF h Cons.prems(2)] .
  then have "forwards_of q st' = forwards_of q st1" using Cons.IH [OF r] by simp
  then show ?case using handle_seen_forwards [OF h Cons.prems(2)] by simp
qed

text \<open>
  C5. A \<open>KEY_CHANGED\<close> request that parses and is already in the cache of past requests
  makes \<open>key_changed_h\<close> return true and leave the whole state as it was: no node record
  changes and nothing is forwarded. A first-seen request whose origin is a known node
  makes it return true, set that node's \<open>status.validkey\<close> to false and its
  \<open>last_req_key\<close> to 0, and call \<open>forward_request\<close> with the request unless
  \<open>tunnelserver\<close> is set. Hence in every run of the handlers, whatever is received and
  however often, a given request is forwarded at most once more, and not at all if it
  was in the cache at the start.
\<close>

theorem key_changed_h_dedup:
  "(sscanf request key_changed_format = [AStr origin] \<and> request \<in> past_request_tree st
      \<longrightarrow> key_changed_h c request st = (True, st))
   \<and> (sscanf request key_changed_format = [AStr origin] \<and> request \<notin> past_request_tree st
        \<and> lookup_node origin st = Some n
      \<longrightarrow> fst (key_changed_h c request st)
        \<and> node_tree (snd (key_changed_h c request st))
            = (node_tree st)(origin \<mapsto> n\<lparr>status_validkey := False, last_req_key := 0\<rparr>)
        \<and> requests_forwarded (snd (key_changed_h c request st))
            = (if tunnelserver st then requests_forwarded st
               else requests_forwarded st @ [(conn_id c, request)]))
   \<and> (run srv calls st = Some st'
      \<longrightarrow> forwards_of request st' \<le> forwards_of request st + 1
        \<and> (request \<in> past_request_tree st \<longrightarrow> forwards_of request st' = forwards_of request st))"
proof (intro conjI impI)
  assume "sscanf request key_changed_format = [AStr origin] \<and> request \<in> past_request_tree st"
  then show "key_changed_h c request st = (True, st)"
    by (simp add: key_changed_h_seen)
next
  assume a: "sscanf request key_changed_format = [AStr origin] \<and> request \<notin> past_request_tree st
             \<and> lookup_node origin st = Some n"
  then have eq: "key_changed_h c request st =
           (True, (if tunnelserver st then (\<lambda>s. s) else forward_request c request)
                    (set_node origin (n\<lparr>status_validkey := False, last_req_key := 0\<rparr>)
                       (st\<lparr>past_request_tree := insert request (past_request_tree st)\<rparr>)))"
    by (simp add: key_changed_h_known)
  show "fst (key_changed_h c request st)" by (simp add: eq)
  show "node_tree (snd (key_changed_h c request st))
            = (node_tree st)(origin \<mapsto> n\<lparr>status_validkey := False, last_req_key := 0\<rparr>)"
    by (simp add: eq set_node_def forward_request_def)
  show "requests_forwarded (snd (key_changed_h c request st))
            = (if tunnelserver st then requests_forwarded st
               else requests_forwarded st @ [(conn_id c, request)])"
    by (simp add: eq set_node_def forward_request_def)
next
  assume r: "run srv calls st = Some st'"
  have i0: "flood_inv request (forwards_of request st) st"
    by (simp add: flood_inv_def)
  have i1: "flood_inv request (forwards_of request st) st'"
    using run_flood_inv [OF r i0] .
  show "forwards_of request st' \<le> forwards_of request st + 1"
    using i1 by (simp add: flood_inv_def split: if_splits)
next
  assume r: "run srv calls st = Some st'" and s: "request \<in> past_request_tree st"
  show "forwards_of request st' = forwards_of request st"
    using run_seen_forwards [OF r s] .
qed


theorem key_changed_h_dedup_witness:
  "key_changed_h demo_conn ''14 1f2e bob'' (demo_state\<lparr>past_request_tree := {''14 1f2e bob''}\<rparr>)
     = (True, demo_state\<lparr>past_request_tree := {''14 1f2e bob''}\<rparr>)
   \<and> fst (key_changed_h demo_conn ''14 1f2e bob'' demo_state)
   \<and> node_tree (snd (key_changed_h demo_conn ''14 1f2e bob'' demo_state))
       = (node_tree demo_state)(''bob'' \<mapsto> bob\<lparr>status_validkey := False, last_req_key := 0\<rparr>)
   \<and> requests_forwarded (snd (key_changed_h demo_conn ''14 1f2e bob'' demo_state))
       = [(1, ''14 1f2e bob'')]
   \<and> forwards_of ''14 1f2e bob''
        (the (run demo_services
                [Key_changed demo_conn ''14 1f2e bob'', Key_changed demo_conn ''14 1f2e bob'',
                 Key_changed demo_conn ''14 1f2e bob''] demo_state)) \<le> 1"
proof -
  let ?r = "''14 1f2e bob''"
  let ?seen = "demo_state\<lparr>past_request_tree := {?r}\<rparr>"
  let ?calls = "[Key_changed demo_conn ?r, Key_changed demo_conn ?r, Key_changed demo_conn ?r]"
  have p: "sscanf ?r key_changed_format = [AStr ''bob'']" by code_simp
  have a: "?r \<in> past_request_tree ?seen" by simp
  have b: "?r \<notin> past_request_tree demo_state" by (simp add: demo_state_def)
  have l: "lookup_node ''bob'' demo_state = Some bob" by (simp add: lookup_node_def demo_state_def)
  have t: "\<not> tunnelserver demo_state" "requests_forwarded demo_state = []" "conn_id demo_conn = 1"
    by (simp_all add: demo_state_def demo_conn_def)
  have f: "forwards_of ?r demo_state = 0" by (simp add: forwards_of_def demo_state_def)
  have r: "run demo_services ?calls demo_state = Some (the (run demo_services ?calls demo_state))"
    by simp
  show ?thesis
    using key_changed_h_dedup [of ?r "''bob''" ?seen demo_conn bob demo_services "[]" ?seen]
      key_changed_h_dedup [of ?r "''bob''" demo_state demo_conn bob demo_services ?calls
        "the (run demo_services ?calls demo_state)"]
      p a b l t f r
    by simp
qed

text \<open>
  C9. If the origin of a first-seen \<open>KEY_CHANGED\<close> request is not in the node tree,
  \<open>key_changed_h\<close> logs the error and returns true without calling \<open>forward_request\<close> and
  without touching a node, although \<open>seen_request\<close> has put the request into the cache;
  from then on, after any run of the handlers, the same request makes \<open>key_changed_h\<close>
  return true and leave the state as it is, from whatever connection it comes.
\<close>

theorem key_changed_h_unknown_origin:
  assumes "sscanf request key_changed_format = [AStr origin]"
    and "request \<notin> past_request_tree st"
    and "lookup_node origin st = None"
  shows "fst (key_changed_h c request st)
     \<and> logged (snd (key_changed_h c request st))
         = logged st @ [(DEBUG_ALWAYS, LOG_ERR,
                         ''Got KEY_CHANGED from '' @ conn_name c @ '' ('' @ conn_hostname c
                           @ '') origin '' @ origin @ '' which does not exist'')]
     \<and> requests_forwarded (snd (key_changed_h c request st)) = requests_forwarded st
     \<and> node_tree (snd (key_changed_h c request st)) = node_tree st
     \<and> request \<in> past_request_tree (snd (key_changed_h c request st))
     \<and> (\<forall>calls st' c'. run srv calls (snd (key_changed_h c request st)) = Some st'
            \<longrightarrow> key_changed_h c' request st' = (True, st'))"
proof -
  have eq: "key_changed_h c request st =
           (True, logger DEBUG_ALWAYS LOG_ERR
                    (''Got KEY_CHANGED from '' @ conn_name c @ '' ('' @ conn_hostname c
                        @ '') origin '' @ origin @ '' which does not exist'')
                    (st\<lparr>past_request_tree := insert request (past_request_tree st)\<rparr>))"
    using assms by (rule key_changed_h_unknown)
  have cached: "request \<in> past_request_tree (snd (key_changed_h c request st))"
    by (simp add: eq logger_def)
  have later: "key_changed_h c' request st' = (True, st')"
    if "run srv calls (snd (key_changed_h c request st)) = Some st'" for calls st' c'
    using run_cache_mono [OF that cached] assms(1) by (simp add: key_changed_h_seen)
  show ?thesis
    using cached later by (simp add: eq logger_def)
qed

theorem key_changed_h_unknown_origin_witness:
  "fst (key_changed_h demo_conn ''14 1f2e erin'' demo_state)
   \<and> logged (snd (key_changed_h demo_conn ''14 1f2e erin'' demo_state))
       = [(DEBUG_ALWAYS, LOG_ERR,
           ''Got KEY_CHANGED from bob (bob.example) origin erin which does not exist'')]
   \<and> requests_forwarded (snd (key_changed_h demo_conn ''14 1f2e erin'' demo_state)) = []
   \<and> key_changed_h demo_conn ''14 1f2e erin''
        (the (run demo_services [Key_changed demo_conn ''14 1f2e bob'']
                (snd (key_changed_h demo_conn ''14 1f2e erin'' demo_state))))
       = (True, the (run demo_services [Key_changed demo_conn ''14 1f2e bob'']
                       (snd (key_changed_h demo_conn ''14 1f2e erin'' demo_state))))"
proof -
  let ?r = "''14 1f2e erin''"
  let ?calls = "[Key_changed demo_conn ''14 1f2e bob'']"
  let ?st1 = "snd (key_changed_h demo_conn ?r demo_state)"
  have p: "sscanf ?r key_changed_format = [AStr ''erin'']" by code_simp
  have b: "?r \<notin> past_request_tree demo_state" by (simp add: demo_state_def)
  have l: "lookup_node ''erin'' demo_state = None" by (simp add: lookup_node_def demo_state_def)
  have s: "logged demo_state = []" "requests_forwarded demo_state = []"
    "conn_name demo_conn = ''bob''" "conn_hostname demo_conn = ''bob.example''"
    by (simp_all add: demo_state_def demo_conn_def)
  have r: "run demo_services ?calls ?st1 = Some (the (run demo_services ?calls ?st1))"
    by simp
  note t = key_changed_h_unknown_origin [OF p b l, of demo_conn demo_services]
  from t have later: "\<forall>calls st' c'. run demo_services calls ?st1 = Some st'
                        \<longrightarrow> key_changed_h c' ?r st' = (True, st')"
    by blast
  have last: "key_changed_h demo_conn ?r (the (run demo_services ?calls ?st1))
                = (True, the (run demo_services ?calls ?st1))"
    using later [rule_format, OF r] .
  from t have first: "fst (key_changed_h demo_conn ?r demo_state)"
    and second: "logged ?st1 = logged demo_state @ [(DEBUG_ALWAYS, LOG_ERR,
                         ''Got KEY_CHANGED from '' @ conn_name demo_conn @ '' ('' @ conn_hostname demo_conn
                           @ '') origin '' @ ''erin'' @ '' which does not exist'')]"
    and third: "requests_forwarded ?st1 = requests_forwarded demo_state"
    by blast+
  show ?thesis
    using first second third last by (simp only: s append_Nil append_Cons)
qed

section \<open>ANS\_KEY addressed to ourselves\<close>

lemma optional_past_required [simp]:
  "optional_S (a0 # a1 # a2 # a3 # a4 # a5 # a6 # rest) 7 = optional_S rest 0"
  "optional_S (a0 # a1 # a2 # a3 # a4 # a5 # a6 # rest) 8 = optional_S rest 1"
  "optional_I (a0 # a1 # rest) 2 = optional_I rest 0"
  by (simp_all add: optional_S_def optional_I_def)

lemma ans_key_h_parsed:
  assumes "sscanf request ans_key_format =
             AStr from_name # AStr to_name # AStr key # AInt cipher # AInt digest
               # AInt maclength # AInt compression # rest"
    and "check_id srv from_name" and "check_id srv to_name"
    and "lookup_node from_name st = Some from_n"
    and "lookup_node to_name st = Some to_n"
  shows "ans_key_h srv c request st =
           (if to_name \<noteq> myself st
            then ans_key_forward srv c request from_n to_n to_name (optional_S rest 0) st
            else ans_key_terminal srv from_name key cipher digest maclength compression
                   (optional_S rest 0) (optional_S rest 1) st)"
  using assms by (simp add: ans_key_h_def)

text \<open>
  C4, as the code has it. For a well-formed \<open>ANS_KEY\<close> addressed to ourselves from a known
  node: if \<open>cipher_open_by_nid\<close> fails for the advertised cipher, or \<open>digest_open_by_nid\<close>
  fails for the advertised digest, or the MAC length differs from \<open>digest_length\<close> of
  the digest opened, \<open>ans_key_h\<close> logs the error and returns false (the hard error, on
  which the caller closes the connection); the contexts opened before the failing check
  stay in the node.
\<close>

theorem ans_key_h_bad_algorithm:
  assumes "sscanf request ans_key_format =
             AStr from_name # AStr to_name # AStr key # AInt cipher # AInt digest
               # AInt maclength # AInt compression # rest"
    and "check_id srv from_name" and "check_id srv to_name"
    and "lookup_node from_name st = Some from_n"
    and "lookup_node to_name st = Some to_n"
    and "to_name = myself st"
  shows "(cipher_open_by_nid srv cipher = None \<longrightarrow>
            ans_key_h srv c request st =
              Some (False, logger DEBUG_ALWAYS LOG_ERR
                      (''Node '' @ name from_n @ '' ('' @ hostname from_n
                         @ '') uses unknown cipher!'') st))
       \<and> (\<forall>oc. cipher_open_by_nid srv cipher = Some oc
                \<and> digest_open_by_nid srv digest maclength = None \<longrightarrow>
            ans_key_h srv c request st =
              Some (False, logger DEBUG_ALWAYS LOG_ERR
                      (''Node '' @ name from_n @ '' ('' @ hostname from_n
                         @ '') uses unknown digest!'')
                      (set_node from_name (from_n\<lparr>outcipher := oc\<rparr>) st)))
       \<and> (\<forall>oc od. cipher_open_by_nid srv cipher = Some oc
                \<and> digest_open_by_nid srv digest maclength = Some od
                \<and> maclength \<noteq> int (digest_length od) \<longrightarrow>
            ans_key_h srv c request st =
              Some (False, logger DEBUG_ALWAYS LOG_ERR
                      (''Node '' @ name from_n @ '' ('' @ hostname from_n
                         @ '') uses bogus MAC length!'')
                      (set_node from_name (from_n\<lparr>outcipher := oc, outdigest := od\<rparr>) st)))"
proof -
  have h: "ans_key_h srv c request st =
             ans_key_terminal srv from_name key cipher digest maclength compression
               (optional_S rest 0) (optional_S rest 1) st"
    using ans_key_h_parsed [OF assms(1-5)] assms(6) by simp
  have n: "node_tree st from_name = Some from_n"
    using assms(4) by (simp add: lookup_node_def)
  show ?thesis
    unfolding h by (simp add: ans_key_terminal_def n)
qed

theorem ans_key_h_bad_algorithm_counterexample:
  "cipher_open_by_nid demo_services 99 = None
   \<and> map_option fst (ans_key_h demo_services demo_conn ''16 bob alice kk 99 2 4 0'' demo_state)
       = Some False
   \<and> digest_open_by_nid demo_services 77 4 = None
   \<and> map_option fst (ans_key_h demo_services demo_conn ''16 bob alice kk 1 77 4 0'' demo_state)
       = Some False
   \<and> map_option digest_length (digest_open_by_nid demo_services 2 5) = Some 4
   \<and> map_option fst (ans_key_h demo_services demo_conn ''16 bob alice kk 1 2 5 0'' demo_state)
       = Some False"
  by code_simp

theorem ans_key_h_bad_algorithm_witness:
  "ans_key_h demo_services demo_conn ''16 bob alice kk 99 2 4 0'' demo_state
     = Some (False, logger DEBUG_ALWAYS LOG_ERR ''Node bob (bob.example) uses unknown cipher!''
                      demo_state)"
proof -
  have p: "sscanf ''16 bob alice kk 99 2 4 0'' ans_key_format =
             AStr ''bob'' # AStr ''alice'' # AStr ''kk'' # AInt 99 # AInt 2 # AInt 4 # AInt 0 # []"
    by code_simp
  have i: "check_id demo_services ''bob''" "check_id demo_services ''alice''"
    by code_simp+
  have l: "lookup_node ''bob'' demo_state = Some bob" "lookup_node ''alice'' demo_state = Some alice"
    by (simp_all add: lookup_node_def demo_state_def)
  have m: "''alice'' = myself demo_state" by (simp add: demo_state_def)
  have u: "cipher_open_by_nid demo_services 99 = None" by (simp add: demo_services_def)
  have b: "name bob = ''bob''" "hostname bob = ''bob.example''"
    by (simp_all add: bob_def demo_node_def)
  show ?thesis
    using ans_key_h_bad_algorithm [OF p i l m, of demo_conn] u b by simp
qed

lemma ans_key_terminal_valid:
  assumes "node_tree st from_p = Some from_n"
    and "cipher_open_by_nid srv cipher = Some oc"
    and "digest_open_by_nid srv digest maclength = Some od"
    and "maclength = int (digest_length od)"
    and "0 \<le> compression" and "compression \<le> 11"
  shows "ans_key_terminal srv from_p key cipher digest maclength compression address_s port_s st =
           (if experimental st \<and> OPTION_VERSION srv (options from_n) \<ge> 2
            then ans_key_modern srv from_p key address_s port_s
                   (set_node from_p
                      (from_n\<lparr>outcipher := oc, outdigest := od, outcompression := compression\<rparr>) st)
            else ans_key_legacy srv from_p key address_s port_s
                   (set_node from_p
                      (from_n\<lparr>outcipher := oc, outdigest := od, outcompression := compression\<rparr>) st))"
  using assms by (simp add: ans_key_terminal_def)

lemma ans_key_finish_result:
  assumes "node_tree st from_p = Some from_n"
  shows "\<exists>st'. ans_key_finish srv from_p address_s port_s st = Some (True, st')
           \<and> node_tree st' =
               (node_tree st)(from_p \<mapsto>
                  from_n\<lparr>status_validkey := True, sent_seqno := 0,
                         address := (if address_s \<noteq> [] \<and> port_s \<noteq> []
                                     then str2sockaddr srv address_s port_s else address from_n)\<rparr>)
           \<and> mykeyused st' = mykeyused st
           \<and> intruder_warnings st' = intruder_warnings st"
  using assms
  by (simp add: ans_key_finish_def Let_def set_node_def logger_def send_mtu_probe_def
        update_node_udp_def intruder_warnings_def intruder_warning_def)

lemma overwrite_take [simp]: "take (length new) (overwrite new buf) = new"
  by (simp add: overwrite_def)

text \<open>
  C8. For a well-formed \<open>ANS_KEY\<close> addressed to ourselves from a known node that passes
  the checks of the algorithms and of the compression level and is handled in the
  old-style branch: if the length of the hex-decoded key differs from
  \<open>cipher_keylength\<close> of \<open>from->outcipher\<close>, \<open>ans_key_h\<close> logs the error and returns true,
  and \<open>status.validkey\<close> is what it was; otherwise it returns true, the decoded key is the
  key of \<open>from->outcipher\<close>, set for encryption, and the key of \<open>from->outdigest\<close>,
  \<open>status.validkey\<close> is true and \<open>sent_seqno\<close> is 0.
\<close>

theorem ans_key_h_legacy:
  assumes "sscanf request ans_key_format =
             AStr from_name # AStr to_name # AStr key # AInt cipher # AInt digest
               # AInt maclength # AInt compression # rest"
    and "check_id srv from_name" and "check_id srv to_name"
    and "lookup_node from_name st = Some from_n"
    and "lookup_node to_name st = Some to_n"
    and "to_name = myself st"
    and "cipher_open_by_nid srv cipher = Some oc"
    and "digest_open_by_nid srv digest maclength = Some od"
    and "maclength = int (digest_length od)"
    and "0 \<le> compression" and "compression \<le> 11"
    and "\<not> (experimental st \<and> OPTION_VERSION srv (options from_n) \<ge> 2)"
  shows "(length (hex2bin srv key) \<noteq> cipher_keylength oc \<longrightarrow>
            (\<exists>st' n'. ans_key_h srv c request st = Some (True, st')
               \<and> logged st' = logged st @
                    [(DEBUG_ALWAYS, LOG_ERR,
                      ''Node '' @ name from_n @ '' ('' @ hostname from_n
                        @ '') uses wrong keylength!'')]
               \<and> node_tree st' from_name = Some n'
               \<and> status_validkey n' = status_validkey from_n))
       \<and> (length (hex2bin srv key) = cipher_keylength oc \<longrightarrow>
            (\<exists>st' n'. ans_key_h srv c request st = Some (True, st')
               \<and> node_tree st' from_name = Some n'
               \<and> cipher_key (outcipher n') = hex2bin srv key
               \<and> cipher_encrypt (outcipher n')
               \<and> digest_key (outdigest n') = hex2bin srv key
               \<and> status_validkey n'
               \<and> sent_seqno n' = 0))"
proof -
  let ?n3 = "from_n\<lparr>outcipher := oc, outdigest := od, outcompression := compression\<rparr>"
  let ?st3 = "set_node from_name ?n3 st"
  have n: "node_tree st from_name = Some from_n"
    using assms(4) by (simp add: lookup_node_def)
  have h: "ans_key_h srv c request st =
             ans_key_legacy srv from_name key (optional_S rest 0) (optional_S rest 1) ?st3"
    using ans_key_h_parsed [OF assms(1-5)] assms(6)
      ans_key_terminal_valid [OF n assms(7-11)] assms(12)
    by simp
  have n3: "node_tree ?st3 from_name = Some ?n3" by (simp add: set_node_def)
  show ?thesis
  proof (intro conjI impI)
    assume "length (hex2bin srv key) \<noteq> cipher_keylength oc"
    then show "\<exists>st' n'. ans_key_h srv c request st = Some (True, st')
               \<and> logged st' = logged st @
                    [(DEBUG_ALWAYS, LOG_ERR,
                      ''Node '' @ name from_n @ '' ('' @ hostname from_n
                        @ '') uses wrong keylength!'')]
               \<and> node_tree st' from_name = Some n'
               \<and> status_validkey n' = status_validkey from_n"
      unfolding h by (simp add: ans_key_legacy_def n3 logger_def set_node_def)
  next
    assume len: "length (hex2bin srv key) = cipher_keylength oc"
    let ?n4 = "?n3\<lparr>outcipher := cipher_set_key (outcipher ?n3) (overwrite (hex2bin srv key) key) True,
                    outdigest := digest_set_key (outdigest ?n3) (overwrite (hex2bin srv key) key)
                                   (length (hex2bin srv key))\<rparr>"
    let ?st4 = "set_node from_name ?n4 ?st3"
    have l: "ans_key_legacy srv from_name key (optional_S rest 0) (optional_S rest 1) ?st3
               = ans_key_finish srv from_name (optional_S rest 0) (optional_S rest 1) ?st4"
      using len by (simp add: ans_key_legacy_def n3 Let_def)
    have n4: "node_tree ?st4 from_name = Some ?n4" by (simp add: set_node_def)
    from ans_key_finish_result [OF n4, of srv "optional_S rest 0" "optional_S rest 1"]
    obtain st' where f: "ans_key_finish srv from_name (optional_S rest 0) (optional_S rest 1) ?st4
                           = Some (True, st')"
      and nt: "node_tree st' from_name =
                 Some (?n4\<lparr>status_validkey := True, sent_seqno := 0,
                         address := (if optional_S rest 0 \<noteq> [] \<and> optional_S rest 1 \<noteq> []
                                     then str2sockaddr srv (optional_S rest 0) (optional_S rest 1)
                                     else address ?n4)\<rparr>)"
      by auto
    show "\<exists>st' n'. ans_key_h srv c request st = Some (True, st')
               \<and> node_tree st' from_name = Some n'
               \<and> cipher_key (outcipher n') = hex2bin srv key
               \<and> cipher_encrypt (outcipher n')
               \<and> digest_key (outdigest n') = hex2bin srv key
               \<and> status_validkey n'
               \<and> sent_seqno n' = 0"
      unfolding h l f using nt len [symmetric]
      by (simp add: cipher_set_key_def digest_set_key_def)
  qed
qed

theorem ans_key_h_legacy_witness:
  "(\<exists>st' n'. ans_key_h demo_services demo_conn ''16 bob alice kk 1 2 4 0'' demo_state
                 = Some (True, st')
        \<and> node_tree st' ''bob'' = Some n'
        \<and> cipher_key (outcipher n') = ''kk''
        \<and> cipher_encrypt (outcipher n')
        \<and> digest_key (outdigest n') = ''kk''
        \<and> status_validkey n'
        \<and> sent_seqno n' = 0)
   \<and> (\<exists>st' n'. ans_key_h demo_services demo_conn ''16 bob alice kkk 1 2 4 0'' demo_state
                 = Some (True, st')
        \<and> logged st' = [(DEBUG_ALWAYS, LOG_ERR, ''Node bob (bob.example) uses wrong keylength!'')]
        \<and> node_tree st' ''bob'' = Some n'
        \<and> status_validkey n' = True)"
proof -
  have p: "sscanf ''16 bob alice kk 1 2 4 0'' ans_key_format =
             AStr ''bob'' # AStr ''alice'' # AStr ''kk'' # AInt 1 # AInt 2 # AInt 4 # AInt 0 # []"
    and p': "sscanf ''16 bob alice kkk 1 2 4 0'' ans_key_format =
             AStr ''bob'' # AStr ''alice'' # AStr ''kkk'' # AInt 1 # AInt 2 # AInt 4 # AInt 0 # []"
    by code_simp+
  have i: "check_id demo_services ''bob''" "check_id demo_services ''alice''"
    by code_simp+
  have l: "lookup_node ''bob'' demo_state = Some bob" "lookup_node ''alice'' demo_state = Some alice"
    by (simp_all add: lookup_node_def demo_state_def)
  have m: "''alice'' = myself demo_state" by (simp add: demo_state_def)
  have a: "cipher_open_by_nid demo_services 1 = Some (demo_cipher 1 2 [])"
    "digest_open_by_nid demo_services 2 4 = Some (demo_digest [])"
    "4 = int (digest_length (demo_digest []))" "(0::int) \<le> 0" "(0::int) \<le> 11"
    by (simp_all add: demo_services_def demo_digest_def)
  have v: "\<not> (experimental demo_state \<and> OPTION_VERSION demo_services (options bob) \<ge> 2)"
    by (simp add: demo_services_def bob_def demo_node_def)
  have b: "name bob = ''bob''" "hostname bob = ''bob.example''" "status_validkey bob = True"
    "logged demo_state = []" "hex2bin demo_services ''kk'' = ''kk''"
    "hex2bin demo_services ''kkk'' = ''kkk''" "cipher_keylength (demo_cipher 1 2 []) = 2"
    by (simp_all add: bob_def demo_node_def demo_state_def demo_services_def demo_cipher_def)
  show ?thesis
    using ans_key_h_legacy [OF p i l m a v, of demo_conn]
      ans_key_h_legacy [OF p' i l m a v, of demo_conn] b
    by simp
qed

section \<open>The ECDH branch of ans\_key\_h\<close>

lemma overwrite_take_le: "n \<le> length new \<Longrightarrow> take n (overwrite new buf) = take n new"
  by (simp add: overwrite_def)

lemma overwrite_drop_take:
  "length new = a + b \<Longrightarrow> take b (drop a (overwrite new buf)) = drop a new"
  by (simp add: overwrite_def)

lemma ans_key_modern_nokey:
  assumes "node_tree st from_p = Some from_n"
    and "node_read_ecdsa_public_key srv from_n = None"
  shows "ans_key_modern srv from_p key address_s port_s st =
           Some (True, logger DEBUG_ALWAYS LOG_ERR
                   (''No ECDSA public key known for '' @ name from_n @ '' ('' @ hostname from_n
                      @ ''), cannot verify ECDH key exchange!'') st)"
  using assms by (simp add: ans_key_modern_def)

lemma ans_key_modern_wronglen:
  assumes "node_tree st from_p = Some from_n"
    and "node_read_ecdsa_public_key srv from_n = Some pubkey"
    and "length (b64decode srv key) \<noteq> ECDH_SIZE srv + ecdsa_size srv pubkey"
  shows "ans_key_modern srv from_p key address_s port_s st =
           Some (True, logger DEBUG_ALWAYS LOG_ERR
                   (''Node '' @ name from_n @ '' ('' @ hostname from_n
                      @ '') uses wrong keylength! '' @ dec_nat (length (b64decode srv key))
                      @ '' != '' @ dec_nat (ECDH_SIZE srv + ecdsa_size srv pubkey))
                   (set_node from_p (from_n\<lparr>ecdsa := Some pubkey\<rparr>) st))"
  using assms by (simp add: ans_key_modern_def Let_def)

lemma ans_key_modern_short:
  assumes "node_tree st from_p = Some from_n"
    and "node_read_ecdsa_public_key srv from_n = Some pubkey"
    and "length (b64decode srv key) = ECDH_SIZE srv + ecdsa_size srv pubkey"
    and "ECDH_SHARED_SIZE srv < cipher_keylength (outcipher from_n)"
  shows "ans_key_modern srv from_p key address_s port_s st =
           Some (True, logger DEBUG_ALWAYS LOG_ERR
                   (''ECDH key too short for cipher of '' @ name from_n @ ''!'')
                   (set_node from_p (from_n\<lparr>ecdsa := Some pubkey\<rparr>) st))"
  using assms by (simp add: ans_key_modern_def Let_def)

lemma ans_key_modern_intruder:
  assumes "node_tree st from_p = Some from_n"
    and "node_read_ecdsa_public_key srv from_n = Some pubkey"
    and "length (b64decode srv key) = ECDH_SIZE srv + ecdsa_size srv pubkey"
    and "\<not> ECDH_SHARED_SIZE srv < cipher_keylength (outcipher from_n)"
    and "\<not> ecdsa_verify srv pubkey (take (ECDH_SIZE srv) (b64decode srv key))
             (drop (ECDH_SIZE srv) (b64decode srv key))"
  shows "ans_key_modern srv from_p key address_s port_s st =
           Some (True, logger DEBUG_ALWAYS LOG_ERR
                   (''Possible intruder '' @ name from_n @ '' ('' @ hostname from_n
                      @ ''): invalid ECDSA signature'')
                   (set_node from_p (from_n\<lparr>ecdsa := Some pubkey\<rparr>) st))"
  using assms
  by (simp add: ans_key_modern_def Let_def overwrite_take_le overwrite_drop_take)

lemma ans_key_modern_verified:
  assumes "node_tree st from_p = Some from_n"
    and "node_read_ecdsa_public_key srv from_n = Some pubkey"
    and "length (b64decode srv key) = ECDH_SIZE srv + ecdsa_size srv pubkey"
    and "\<not> ECDH_SHARED_SIZE srv < cipher_keylength (outcipher from_n)"
    and "ecdsa_verify srv pubkey (take (ECDH_SIZE srv) (b64decode srv key))
             (drop (ECDH_SIZE srv) (b64decode srv key))"
    and "(if ecdh from_n = None
          then send_ans_key_ecdh srv from_p (set_node from_p (from_n\<lparr>ecdsa := Some pubkey\<rparr>) st)
          else Some (True, set_node from_p (from_n\<lparr>ecdsa := Some pubkey\<rparr>) st)) = Some (True, st2)"
    and "node_tree st2 from_p = Some n2"
  shows "ans_key_modern srv from_p key address_s port_s st =
           (case ecdh_compute_shared srv (ecdh n2) (take (ECDH_SIZE srv) (b64decode srv key)) of
              (h, None) \<Rightarrow> Some (True, set_node from_p (n2\<lparr>ecdh := h\<rparr>) st2)
            | (h, Some shared) \<Rightarrow>
                ans_key_update_crypto srv from_p shared (overwrite (b64decode srv key) key)
                  address_s port_s (set_node from_p (n2\<lparr>ecdh := h\<rparr>) st2))"
  using assms
  by (simp add: ans_key_modern_def Let_def overwrite_take_le overwrite_drop_take)

lemma send_ans_key_ecdh_node:
  assumes "send_ans_key_ecdh srv p st = Some res" and "node_tree st p = Some n"
  shows "\<exists>h. node_tree (snd res) = (node_tree st)(p \<mapsto> n\<lparr>ecdh := h\<rparr>)"
  using assms
  by (auto simp: send_ans_key_ecdh_def Let_def set_node_def send_request_def
           split: option.splits prod.splits)

lemma send_ans_key_ecdh_globals:
  assumes "send_ans_key_ecdh srv p st = Some res"
  shows "myself (snd res) = myself st \<and> mykeyused (snd res) = mykeyused st
         \<and> replaywin (snd res) = replaywin st \<and> logged (snd res) = logged st"
  using assms
  by (auto simp: send_ans_key_ecdh_def Let_def set_node_def send_request_def
           split: option.splits prod.splits)

lemma set_node_twice [simp]: "set_node p b (set_node p a st) = set_node p b st"
  by (simp add: set_node_def)

lemma node_tree_set_node [simp]: "node_tree (set_node p n st) p = Some n"
  by (simp add: set_node_def)

lemma node_read_out_fields [simp]:
  "node_read_ecdsa_public_key srv (n\<lparr>outcipher := a, outdigest := b, outcompression := c\<rparr>)
     = node_read_ecdsa_public_key srv n"
  by (simp add: node_read_ecdsa_public_key_def split: option.splits)

lemma ans_key_modern_sendfail:
  assumes "node_tree st from_p = Some from_n"
    and "node_read_ecdsa_public_key srv from_n = Some pubkey"
    and "length (b64decode srv key) = ECDH_SIZE srv + ecdsa_size srv pubkey"
    and "\<not> ECDH_SHARED_SIZE srv < cipher_keylength (outcipher from_n)"
    and "ecdsa_verify srv pubkey (take (ECDH_SIZE srv) (b64decode srv key))
             (drop (ECDH_SIZE srv) (b64decode srv key))"
    and "ecdh from_n = None"
    and "send_ans_key_ecdh srv from_p (set_node from_p (from_n\<lparr>ecdsa := Some pubkey\<rparr>) st)
           = Some (False, st2)"
  shows "ans_key_modern srv from_p key address_s port_s st = Some (True, st2)"
  using assms
  by (simp add: ans_key_modern_def Let_def overwrite_take_le overwrite_drop_take)

lemma ans_key_update_crypto_noprf:
  assumes "node_tree st from_p = Some from_n"
    and "node_tree st (myself st) = Some me"
    and "key_expansion srv (name me) (name from_n) (cipher_keylength (incipher me))
           (cipher_keylength (outcipher from_n)) shared key = None"
  shows "ans_key_update_crypto srv from_p shared key address_s port_s st = Some (True, st)"
  using assms by (simp add: ans_key_update_crypto_def)

text \<open>
  C10, as the code has it. When \<open>ans_key_h\<close> drops an \<open>ANS_KEY\<close> addressed to ourselves
  after the checks of the algorithms, it returns true, \<open>status.validkey\<close> is what it was,
  and \<open>from->outcipher\<close> and \<open>from->outdigest\<close> are the contexts just opened for the
  advertised algorithms. For a bogus compression level (lines 316--319)
  \<open>from->outcompression\<close> is what it was: the handler returns before it assigns the
  field. On every other path that returns before the keys are set,
  \<open>from->outcompression\<close> is the advertised level: a wrong length of the decoded key in
  the old-style branch (lines 406--409), and in the ECDH branch a missing ECDSA public
  key (lines 328--331), a wrong length of the decoded key (lines 336--339), a cipher key
  longer than \<open>ECDH_SHARED_SIZE\<close> (lines 341--344), an invalid signature (lines 346--349),
  a failed \<open>send_ans_key_ecdh\<close> (lines 351--354), a failed computation of the shared
  secret (lines 358--359) and a failed \<open>prf\<close> (lines 380--381).
\<close>

theorem ans_key_h_soft_drop:
  assumes "sscanf request ans_key_format =
             AStr from_name # AStr to_name # AStr key # AInt cipher # AInt digest
               # AInt maclength # AInt compression # rest"
    and "check_id srv from_name" and "check_id srv to_name"
    and "lookup_node from_name st = Some from_n"
    and "lookup_node to_name st = Some to_n"
    and "to_name = myself st"
    and "cipher_open_by_nid srv cipher = Some oc"
    and "digest_open_by_nid srv digest maclength = Some od"
    and "maclength = int (digest_length od)"
  shows "(compression < 0 \<or> compression > 11 \<longrightarrow>
            (\<exists>st' n'. ans_key_h srv c request st = Some (True, st')
               \<and> node_tree st' from_name = Some n'
               \<and> outcipher n' = oc \<and> outdigest n' = od
               \<and> outcompression n' = outcompression from_n
               \<and> status_validkey n' = status_validkey from_n))
       \<and> (0 \<le> compression \<and> compression \<le> 11
            \<and> ((\<not> (experimental st \<and> OPTION_VERSION srv (options from_n) \<ge> 2)
                  \<and> length (hex2bin srv key) \<noteq> cipher_keylength oc)
                \<or> (experimental st \<and> OPTION_VERSION srv (options from_n) \<ge> 2
                    \<and> (node_read_ecdsa_public_key srv from_n = None
                        \<or> (\<exists>pubkey. node_read_ecdsa_public_key srv from_n = Some pubkey
                              \<and> (length (b64decode srv key) \<noteq> ECDH_SIZE srv + ecdsa_size srv pubkey
                                  \<or> (length (b64decode srv key) = ECDH_SIZE srv + ecdsa_size srv pubkey
                                      \<and> (ECDH_SHARED_SIZE srv < cipher_keylength oc
                                          \<or> (\<not> ECDH_SHARED_SIZE srv < cipher_keylength oc
                                      \<and> (\<not> ecdsa_verify srv pubkey
                                              (take (ECDH_SIZE srv) (b64decode srv key))
                                              (drop (ECDH_SIZE srv) (b64decode srv key))
                                          \<or> (ecdsa_verify srv pubkey
                                                  (take (ECDH_SIZE srv) (b64decode srv key))
                                                  (drop (ECDH_SIZE srv) (b64decode srv key))
                                              \<and> ((\<exists>st2. ecdh from_n = None
                                                     \<and> send_ans_key_ecdh srv from_name
                                                           (set_node from_name
                                                              (from_n\<lparr>outcipher := oc, outdigest := od,
                                                                      outcompression := compression,
                                                                      ecdsa := Some pubkey\<rparr>) st)
                                                         = Some (False, st2))
                                                  \<or> (\<exists>st2 n2 h sh.
                                                     (if ecdh from_n = None
                                                      then send_ans_key_ecdh srv from_name
                                                           (set_node from_name
                                                              (from_n\<lparr>outcipher := oc, outdigest := od,
                                                                      outcompression := compression,
                                                                      ecdsa := Some pubkey\<rparr>) st)
                                                      else Some (True,
                                                           set_node from_name
                                                              (from_n\<lparr>outcipher := oc, outdigest := od,
                                                                      outcompression := compression,
                                                                      ecdsa := Some pubkey\<rparr>) st))
                                                       = Some (True, st2)
                                                     \<and> node_tree st2 from_name = Some n2
                                                     \<and> ecdh_compute_shared srv (ecdh n2)
                                                          (take (ECDH_SIZE srv) (b64decode srv key))
                                                        = (h, sh)
                                                     \<and> (sh = None
                                                         \<or> (\<exists>shared me. sh = Some shared
                                                               \<and> node_tree (set_node from_name (n2\<lparr>ecdh := h\<rparr>) st2)
                                                                    (myself st) = Some me
                                                               \<and> key_expansion srv (name me) (name from_n)
                                                                    (cipher_keylength (incipher me))
                                                                    (cipher_keylength oc) shared
                                                                    (overwrite (b64decode srv key) key)
                                                                  = None))))))))))))))
          \<longrightarrow>
            (\<exists>st' n'. ans_key_h srv c request st = Some (True, st')
               \<and> node_tree st' from_name = Some n'
               \<and> outcipher n' = oc \<and> outdigest n' = od
               \<and> outcompression n' = compression
               \<and> status_validkey n' = status_validkey from_n))"
proof -
  let ?a = "optional_S rest 0" and ?p = "optional_S rest 1"
  let ?n3 = "from_n\<lparr>outcipher := oc, outdigest := od, outcompression := compression\<rparr>"
  let ?st3 = "set_node from_name ?n3 st"
  let ?R = "\<lambda>comp. \<exists>st' n'. ans_key_h srv c request st = Some (True, st')
               \<and> node_tree st' from_name = Some n'
               \<and> outcipher n' = oc \<and> outdigest n' = od
               \<and> outcompression n' = comp
               \<and> status_validkey n' = status_validkey from_n"
  have n: "node_tree st from_name = Some from_n"
    using assms(4) by (simp add: lookup_node_def)
  have h: "ans_key_h srv c request st =
             ans_key_terminal srv from_name key cipher digest maclength compression ?a ?p st"
    using ans_key_h_parsed [OF assms(1-5)] assms(6) by simp
  have bogus: "?R (outcompression from_n)" if "compression < 0 \<or> compression > 11"
    unfolding h using that assms(7-9) n
    by (auto simp: ans_key_terminal_def logger_def set_node_def)
  have valid: "ans_key_h srv c request st =
           (if experimental st \<and> OPTION_VERSION srv (options from_n) \<ge> 2
            then ans_key_modern srv from_name key ?a ?p ?st3
            else ans_key_legacy srv from_name key ?a ?p ?st3)"
    if "0 \<le> compression" "compression \<le> 11"
    unfolding h using ans_key_terminal_valid [OF n assms(7-9) that] .
  have n3: "node_tree ?st3 from_name = Some ?n3" by simp
  have legacy: "?R compression"
    if "0 \<le> compression" "compression \<le> 11"
      "\<not> (experimental st \<and> OPTION_VERSION srv (options from_n) \<ge> 2)"
      "length (hex2bin srv key) \<noteq> cipher_keylength oc"
    using valid [OF that(1,2)] that(3,4)
    by (simp add: ans_key_legacy_def logger_def set_node_def)
  have nokey: "?R compression"
    if "0 \<le> compression" "compression \<le> 11"
      "experimental st \<and> OPTION_VERSION srv (options from_n) \<ge> 2"
      "node_read_ecdsa_public_key srv from_n = None"
    using valid [OF that(1,2)] that(3) ans_key_modern_nokey [OF n3, of srv key ?a ?p] that(4)
    by (simp add: logger_def set_node_def)
  have wronglen: "?R compression"
    if "0 \<le> compression" "compression \<le> 11"
      "experimental st \<and> OPTION_VERSION srv (options from_n) \<ge> 2"
      "node_read_ecdsa_public_key srv from_n = Some pubkey"
      "length (b64decode srv key) \<noteq> ECDH_SIZE srv + ecdsa_size srv pubkey" for pubkey
    using valid [OF that(1,2)] that(3)
      ans_key_modern_wronglen [OF n3, of srv pubkey key ?a ?p] that(4,5)
    by (simp add: logger_def set_node_def)
  have short: "?R compression"
    if "0 \<le> compression" "compression \<le> 11"
      "experimental st \<and> OPTION_VERSION srv (options from_n) \<ge> 2"
      "node_read_ecdsa_public_key srv from_n = Some pubkey"
      "length (b64decode srv key) = ECDH_SIZE srv + ecdsa_size srv pubkey"
      "ECDH_SHARED_SIZE srv < cipher_keylength oc" for pubkey
    using valid [OF that(1,2)] that(3)
      ans_key_modern_short [OF n3, of srv pubkey key ?a ?p] that(4-6)
    by (simp add: logger_def set_node_def)
  have intruder: "?R compression"
    if "0 \<le> compression" "compression \<le> 11"
      "experimental st \<and> OPTION_VERSION srv (options from_n) \<ge> 2"
      "node_read_ecdsa_public_key srv from_n = Some pubkey"
      "length (b64decode srv key) = ECDH_SIZE srv + ecdsa_size srv pubkey"
      "\<not> ECDH_SHARED_SIZE srv < cipher_keylength oc"
      "\<not> ecdsa_verify srv pubkey (take (ECDH_SIZE srv) (b64decode srv key))
             (drop (ECDH_SIZE srv) (b64decode srv key))" for pubkey
    using valid [OF that(1,2)] that(3)
      ans_key_modern_intruder [OF n3, of srv pubkey key ?a ?p] that(4-7)
    by (simp add: logger_def set_node_def)
  have sendfail: "?R compression"
    if "0 \<le> compression" "compression \<le> 11"
      "experimental st \<and> OPTION_VERSION srv (options from_n) \<ge> 2"
      "node_read_ecdsa_public_key srv from_n = Some pubkey"
      "length (b64decode srv key) = ECDH_SIZE srv + ecdsa_size srv pubkey"
      "\<not> ECDH_SHARED_SIZE srv < cipher_keylength oc"
      "ecdsa_verify srv pubkey (take (ECDH_SIZE srv) (b64decode srv key))
             (drop (ECDH_SIZE srv) (b64decode srv key))"
      "ecdh from_n = None"
      "send_ans_key_ecdh srv from_name
         (set_node from_name (?n3\<lparr>ecdsa := Some pubkey\<rparr>) st) = Some (False, st2)"
    for pubkey st2
  proof -
    let ?st1 = "set_node from_name (?n3\<lparr>ecdsa := Some pubkey\<rparr>) st"
    have r: "node_read_ecdsa_public_key srv ?n3 = Some pubkey"
      using that(4) by simp
    have s: "\<not> ECDH_SHARED_SIZE srv < cipher_keylength (outcipher ?n3)"
      using that(6) by simp
    have e: "ecdh ?n3 = None" using that(8) by simp
    have f: "send_ans_key_ecdh srv from_name (set_node from_name (?n3\<lparr>ecdsa := Some pubkey\<rparr>) ?st3)
               = Some (False, st2)"
      using that(9) by simp
    have m: "ans_key_modern srv from_name key ?a ?p ?st3 = Some (True, st2)"
      using ans_key_modern_sendfail [OF n3 r that(5) s that(7) e f] .
    have "node_tree ?st1 from_name = Some (?n3\<lparr>ecdsa := Some pubkey\<rparr>)" by simp
    from send_ans_key_ecdh_node [OF that(9) this]
    obtain h' where "node_tree st2 from_name = Some (?n3\<lparr>ecdsa := Some pubkey, ecdh := h'\<rparr>)"
      by auto
    then show ?thesis
      using valid [OF that(1,2)] that(3) m by simp
  qed
  have computed: "\<exists>h'. n2 = ?n3\<lparr>ecdsa := Some pubkey, ecdh := h'\<rparr>"
    if "(if ecdh from_n = None
        then send_ans_key_ecdh srv from_name
               (set_node from_name (?n3\<lparr>ecdsa := Some pubkey\<rparr>) st)
        else Some (True, set_node from_name (?n3\<lparr>ecdsa := Some pubkey\<rparr>) st)) = Some (True, st2)"
      "node_tree st2 from_name = Some n2"
    for pubkey st2 n2
  proof (cases "ecdh from_n = None")
    case True
    let ?st1 = "set_node from_name (?n3\<lparr>ecdsa := Some pubkey\<rparr>) st"
    from True have s: "send_ans_key_ecdh srv from_name ?st1 = Some (True, st2)"
      using that(1) by (auto split: if_splits)
    have "node_tree ?st1 from_name = Some (?n3\<lparr>ecdsa := Some pubkey\<rparr>)" by simp
    from send_ans_key_ecdh_node [OF s this] that(2) show ?thesis by auto
  next
    case False
    then have "st2 = set_node from_name (?n3\<lparr>ecdsa := Some pubkey\<rparr>) st"
      using that(1) by (auto split: if_splits)
    then have "n2 = ?n3\<lparr>ecdsa := Some pubkey\<rparr>" using that(2) by simp
    then have "n2 = ?n3\<lparr>ecdsa := Some pubkey, ecdh := ecdh from_n\<rparr>" by simp
    then show ?thesis by blast
  qed
  have path: "ans_key_h srv c request st =
               (case ecdh_compute_shared srv (ecdh n2) (take (ECDH_SIZE srv) (b64decode srv key)) of
                  (h, None) \<Rightarrow> Some (True, set_node from_name (n2\<lparr>ecdh := h\<rparr>) st2)
                | (h, Some shared) \<Rightarrow>
                    ans_key_update_crypto srv from_name shared (overwrite (b64decode srv key) key)
                      ?a ?p (set_node from_name (n2\<lparr>ecdh := h\<rparr>) st2))"
    if "0 \<le> compression" "compression \<le> 11"
      "experimental st \<and> OPTION_VERSION srv (options from_n) \<ge> 2"
      "node_read_ecdsa_public_key srv from_n = Some pubkey"
      "length (b64decode srv key) = ECDH_SIZE srv + ecdsa_size srv pubkey"
      "\<not> ECDH_SHARED_SIZE srv < cipher_keylength oc"
      "ecdsa_verify srv pubkey (take (ECDH_SIZE srv) (b64decode srv key))
             (drop (ECDH_SIZE srv) (b64decode srv key))"
      "(if ecdh from_n = None
        then send_ans_key_ecdh srv from_name
               (set_node from_name (?n3\<lparr>ecdsa := Some pubkey\<rparr>) st)
        else Some (True, set_node from_name (?n3\<lparr>ecdsa := Some pubkey\<rparr>) st)) = Some (True, st2)"
      "node_tree st2 from_name = Some n2"
    for pubkey st2 n2
  proof -
    have pre: "(if ecdh ?n3 = None
                then send_ans_key_ecdh srv from_name
                       (set_node from_name (?n3\<lparr>ecdsa := Some pubkey\<rparr>) ?st3)
                else Some (True, set_node from_name (?n3\<lparr>ecdsa := Some pubkey\<rparr>) ?st3))
               = Some (True, st2)"
      using that(8) by (auto split: if_splits)
    have r: "node_read_ecdsa_public_key srv ?n3 = Some pubkey"
      using that(4) by simp
    have s: "\<not> ECDH_SHARED_SIZE srv < cipher_keylength (outcipher ?n3)"
      using that(6) by simp
    show ?thesis
      using valid [OF that(1,2)] that(3)
        ans_key_modern_verified [OF n3 r that(5) s that(7) pre that(9), of ?a ?p]
      by simp
  qed
  have noshared: "?R compression"
    if "0 \<le> compression" "compression \<le> 11"
      "experimental st \<and> OPTION_VERSION srv (options from_n) \<ge> 2"
      "node_read_ecdsa_public_key srv from_n = Some pubkey"
      "length (b64decode srv key) = ECDH_SIZE srv + ecdsa_size srv pubkey"
      "\<not> ECDH_SHARED_SIZE srv < cipher_keylength oc"
      "ecdsa_verify srv pubkey (take (ECDH_SIZE srv) (b64decode srv key))
             (drop (ECDH_SIZE srv) (b64decode srv key))"
      "(if ecdh from_n = None
        then send_ans_key_ecdh srv from_name
               (set_node from_name (?n3\<lparr>ecdsa := Some pubkey\<rparr>) st)
        else Some (True, set_node from_name (?n3\<lparr>ecdsa := Some pubkey\<rparr>) st)) = Some (True, st2)"
      "node_tree st2 from_name = Some n2"
      "ecdh_compute_shared srv (ecdh n2) (take (ECDH_SIZE srv) (b64decode srv key)) = (h, None)"
    for pubkey st2 n2 h
  proof -
    from computed [OF that(8,9)]
    obtain h' where n2: "n2 = ?n3\<lparr>ecdsa := Some pubkey, ecdh := h'\<rparr>" by blast
    show ?thesis
      using path [OF that(1-9)] that(10) by (simp add: n2)
  qed
  have noprf: "?R compression"
    if "0 \<le> compression" "compression \<le> 11"
      "experimental st \<and> OPTION_VERSION srv (options from_n) \<ge> 2"
      "node_read_ecdsa_public_key srv from_n = Some pubkey"
      "length (b64decode srv key) = ECDH_SIZE srv + ecdsa_size srv pubkey"
      "\<not> ECDH_SHARED_SIZE srv < cipher_keylength oc"
      "ecdsa_verify srv pubkey (take (ECDH_SIZE srv) (b64decode srv key))
             (drop (ECDH_SIZE srv) (b64decode srv key))"
      "(if ecdh from_n = None
        then send_ans_key_ecdh srv from_name
               (set_node from_name (?n3\<lparr>ecdsa := Some pubkey\<rparr>) st)
        else Some (True, set_node from_name (?n3\<lparr>ecdsa := Some pubkey\<rparr>) st)) = Some (True, st2)"
      "node_tree st2 from_name = Some n2"
      "ecdh_compute_shared srv (ecdh n2) (take (ECDH_SIZE srv) (b64decode srv key))
         = (h, Some shared)"
      "node_tree (set_node from_name (n2\<lparr>ecdh := h\<rparr>) st2) (myself st) = Some me"
      "key_expansion srv (name me) (name from_n) (cipher_keylength (incipher me))
         (cipher_keylength oc) shared (overwrite (b64decode srv key) key) = None"
    for pubkey st2 n2 h shared me
  proof -
    from computed [OF that(8,9)]
    obtain h' where n2: "n2 = ?n3\<lparr>ecdsa := Some pubkey, ecdh := h'\<rparr>" by blast
    let ?st5 = "set_node from_name (n2\<lparr>ecdh := h\<rparr>) st2"
    have my: "myself st2 = myself st"
    proof (cases "ecdh from_n = None")
      case True
      then have s: "send_ans_key_ecdh srv from_name
               (set_node from_name (?n3\<lparr>ecdsa := Some pubkey\<rparr>) st) = Some (True, st2)"
        using that(8) by (auto split: if_splits)
      from send_ans_key_ecdh_globals [OF s] show ?thesis by (simp add: set_node_def)
    next
      case False
      then show ?thesis using that(8) by (auto simp: set_node_def split: if_splits)
    qed
    have a: "node_tree ?st5 from_name = Some (n2\<lparr>ecdh := h\<rparr>)" by simp
    have b: "node_tree ?st5 (myself ?st5) = Some me"
      using that(11) my by (simp add: set_node_def)
    have k: "key_expansion srv (name me) (name (n2\<lparr>ecdh := h\<rparr>)) (cipher_keylength (incipher me))
               (cipher_keylength (outcipher (n2\<lparr>ecdh := h\<rparr>))) shared
               (overwrite (b64decode srv key) key) = None"
      using that(12) by (simp add: n2)
    show ?thesis
      using path [OF that(1-9)] that(10) ans_key_update_crypto_noprf [OF a b k, of ?a ?p]
      by (simp add: n2)
  qed
  show ?thesis
    using bogus legacy nokey wronglen short intruder sendfail noshared noprf by blast
qed

theorem ans_key_h_soft_drop_counterexample:
  "map_option (\<lambda>(r, s). (r, map_option (\<lambda>n. (cipher_key (outcipher n), outcompression n))
                                   (node_tree s ''bob'')))
     (ans_key_h demo_services demo_conn ''16 bob alice kk 1 2 4 12'' demo_state)
     = Some (True, Some ([], 5))
   \<and> (cipher_key (outcipher bob), outcompression bob) = (''cd'', 5)"
  by code_simp

theorem ans_key_h_soft_drop_witness:
  "(\<exists>st' n'. ans_key_h demo_services demo_conn ''16 bob alice kk 1 2 4 12'' demo_state
                 = Some (True, st')
        \<and> node_tree st' ''bob'' = Some n'
        \<and> outcipher n' = demo_cipher 1 2 [] \<and> outdigest n' = demo_digest []
        \<and> outcompression n' = 5
        \<and> status_validkey n' = True)
   \<and> (\<exists>st' n'. ans_key_h demo_services demo_conn ''16 carol alice GGGGKx 2 2 4 0'' demo_state
                 = Some (True, st')
        \<and> node_tree st' ''carol'' = Some n'
        \<and> outcipher n' = demo_cipher 2 3 [] \<and> outdigest n' = demo_digest []
        \<and> outcompression n' = 0
        \<and> status_validkey n' = True)
   \<and> (\<exists>st' n'. ans_key_h demo_services demo_conn ''16 carol alice GGGGKC 3 2 4 0'' demo_state
                 = Some (True, st')
        \<and> node_tree st' ''carol'' = Some n'
        \<and> outcipher n' = demo_cipher 3 9 [] \<and> outdigest n' = demo_digest []
        \<and> outcompression n' = 0
        \<and> status_validkey n' = True)
   \<and> (\<exists>st' n'. ans_key_h demo_services demo_conn ''16 carol alice 0000KC 2 2 4 0'' demo_state
                 = Some (True, st')
        \<and> node_tree st' ''carol'' = Some n'
        \<and> outcipher n' = demo_cipher 2 3 [] \<and> outdigest n' = demo_digest []
        \<and> outcompression n' = 0
        \<and> status_validkey n' = True)"
proof -
  have p: "sscanf ''16 bob alice kk 1 2 4 12'' ans_key_format =
             AStr ''bob'' # AStr ''alice'' # AStr ''kk'' # AInt 1 # AInt 2 # AInt 4 # AInt 12 # []"
    and p': "sscanf ''16 carol alice GGGGKx 2 2 4 0'' ans_key_format =
             AStr ''carol'' # AStr ''alice'' # AStr ''GGGGKx'' # AInt 2 # AInt 2 # AInt 4
               # AInt 0 # []"
    and p'': "sscanf ''16 carol alice GGGGKC 3 2 4 0'' ans_key_format =
             AStr ''carol'' # AStr ''alice'' # AStr ''GGGGKC'' # AInt 3 # AInt 2 # AInt 4
               # AInt 0 # []"
    and p''': "sscanf ''16 carol alice 0000KC 2 2 4 0'' ans_key_format =
             AStr ''carol'' # AStr ''alice'' # AStr ''0000KC'' # AInt 2 # AInt 2 # AInt 4
               # AInt 0 # []"
    by code_simp+
  have i: "check_id demo_services ''bob''" "check_id demo_services ''alice''"
    and i': "check_id demo_services ''carol''"
    by code_simp+
  have l: "lookup_node ''bob'' demo_state = Some bob" "lookup_node ''alice'' demo_state = Some alice"
    and l': "lookup_node ''carol'' demo_state = Some carol"
    by (simp_all add: lookup_node_def demo_state_def)
  have m: "''alice'' = myself demo_state" by (simp add: demo_state_def)
  have a: "cipher_open_by_nid demo_services 1 = Some (demo_cipher 1 2 [])"
    "digest_open_by_nid demo_services 2 4 = Some (demo_digest [])"
    "4 = int (digest_length (demo_digest []))"
    and a': "cipher_open_by_nid demo_services 2 = Some (demo_cipher 2 3 [])"
    and a'': "cipher_open_by_nid demo_services 3 = Some (demo_cipher 3 9 [])"
    by (simp_all add: demo_services_def demo_digest_def)
  have b: "outcompression bob = 5" "status_validkey bob = True" "status_validkey carol = True"
    by (simp_all add: bob_def carol_def demo_node_def)
  have v: "experimental demo_state \<and> OPTION_VERSION demo_services (options carol) \<ge> 2"
    by (simp add: demo_state_def demo_services_def carol_def demo_node_def)
  have k: "node_read_ecdsa_public_key demo_services carol = Some ''KC''"
    by (simp add: node_read_ecdsa_public_key_def carol_def demo_node_def)
  have e: "length (b64decode demo_services ''GGGGKx'')
             = ECDH_SIZE demo_services + ecdsa_size demo_services ''KC''"
    "\<not> ECDH_SHARED_SIZE demo_services < cipher_keylength (demo_cipher 2 3 [])"
    "\<not> ecdsa_verify demo_services ''KC'' (take (ECDH_SIZE demo_services) (b64decode demo_services ''GGGGKx''))
         (drop (ECDH_SIZE demo_services) (b64decode demo_services ''GGGGKx''))"
    by (simp_all add: demo_services_def demo_cipher_def)
  have e'': "length (b64decode demo_services ''GGGGKC'')
             = ECDH_SIZE demo_services + ecdsa_size demo_services ''KC''"
    "ECDH_SHARED_SIZE demo_services < cipher_keylength (demo_cipher 3 9 [])"
    by (simp_all add: demo_services_def demo_cipher_def)
  have e''': "length (b64decode demo_services ''0000KC'')
             = ECDH_SIZE demo_services + ecdsa_size demo_services ''KC''"
    "ecdsa_verify demo_services ''KC'' (take (ECDH_SIZE demo_services) (b64decode demo_services ''0000KC''))
         (drop (ECDH_SIZE demo_services) (b64decode demo_services ''0000KC''))"
    "ecdh carol \<noteq> None"
    "ecdh_compute_shared demo_services (ecdh carol)
       (take (ECDH_SIZE demo_services) (b64decode demo_services ''0000KC'')) = (None, None)"
    by (simp_all add: demo_services_def demo_cipher_def carol_def demo_node_def)
  have first: "\<exists>st' n'. ans_key_h demo_services demo_conn ''16 bob alice kk 1 2 4 12'' demo_state
                 = Some (True, st')
        \<and> node_tree st' ''bob'' = Some n'
        \<and> outcipher n' = demo_cipher 1 2 [] \<and> outdigest n' = demo_digest []
        \<and> outcompression n' = outcompression bob
        \<and> status_validkey n' = status_validkey bob"
    using ans_key_h_soft_drop [OF p i l m a, of demo_conn] by simp
  have second: "\<exists>st' n'. ans_key_h demo_services demo_conn ''16 carol alice GGGGKx 2 2 4 0'' demo_state
                 = Some (True, st')
        \<and> node_tree st' ''carol'' = Some n'
        \<and> outcipher n' = demo_cipher 2 3 [] \<and> outdigest n' = demo_digest []
        \<and> outcompression n' = 0
        \<and> status_validkey n' = status_validkey carol"
    using ans_key_h_soft_drop [OF p' i'(1) i(2) l' l(2) m a' a(2,3), of demo_conn, THEN conjunct2]
      v k e
    by simp
  have third: "\<exists>st' n'. ans_key_h demo_services demo_conn ''16 carol alice GGGGKC 3 2 4 0'' demo_state
                 = Some (True, st')
        \<and> node_tree st' ''carol'' = Some n'
        \<and> outcipher n' = demo_cipher 3 9 [] \<and> outdigest n' = demo_digest []
        \<and> outcompression n' = 0
        \<and> status_validkey n' = status_validkey carol"
    using ans_key_h_soft_drop [OF p'' i'(1) i(2) l' l(2) m a'' a(2,3), of demo_conn, THEN conjunct2]
      v k e''
    by simp
  have fourth: "\<exists>st' n'. ans_key_h demo_services demo_conn ''16 carol alice 0000KC 2 2 4 0'' demo_state
                 = Some (True, st')
        \<and> node_tree st' ''carol'' = Some n'
        \<and> outcipher n' = demo_cipher 2 3 [] \<and> outdigest n' = demo_digest []
        \<and> outcompression n' = 0
        \<and> status_validkey n' = status_validkey carol"
    using ans_key_h_soft_drop [OF p''' i'(1) i(2) l' l(2) m a' a(2,3), of demo_conn, THEN conjunct2]
      v k e(2) e'''
    by (simp add: carol_def demo_node_def)
  show ?thesis using first second third fourth by (simp only: b)
qed

section \<open>The warning of a possible intruder\<close>

lemma intruder_warnings_basic [simp]:
  "intruder_warnings (set_node k n st) = intruder_warnings st"
  "intruder_warnings (snd (send_request srv nc m st)) = intruder_warnings st"
  "intruder_warnings (send_mtu_probe n st) = intruder_warnings st"
  "intruder_warnings (append_config_file a b d st) = intruder_warnings st"
  "intruder_warnings (forward_request c r st) = intruder_warnings st"
  "intruder_warnings (st\<lparr>random_draws := rd\<rparr>) = intruder_warnings st"
  "intruder_warnings (st\<lparr>mykeyused := u\<rparr>) = intruder_warnings st"
  "intruder_warnings (st\<lparr>past_request_tree := pr\<rparr>) = intruder_warnings st"
  by (simp_all add: intruder_warnings_def set_node_def send_request_def send_mtu_probe_def
        append_config_file_def forward_request_def)

lemma intruder_warnings_logger [simp]:
  "ch \<noteq> CHR ''P'' \<Longrightarrow> intruder_warnings (logger l p (ch # m) st) = intruder_warnings st"
  by (simp add: intruder_warnings_def logger_def intruder_warning_def)

lemma intruder_warnings_logger_intruder:
  "intruder_warnings (logger l p (''Possible intruder '' @ m) st)
     = intruder_warnings st @ [(l, p, ''Possible intruder '' @ m)]"
  by (simp add: intruder_warnings_def logger_def intruder_warning_def)

lemma key_changed_h_warnings:
  "intruder_warnings (snd (key_changed_h c request st)) = intruder_warnings st"
  by (simp add: key_changed_h_def seen_request_def lookup_node_def Let_def split: option.splits)

lemma send_ans_key_ecdh_warnings:
  "send_ans_key_ecdh srv p st = Some res \<Longrightarrow> intruder_warnings (snd res) = intruder_warnings st"
  by (auto simp: send_ans_key_ecdh_def Let_def split: option.splits prod.splits)

lemma send_ans_key_warnings:
  "send_ans_key srv p st = Some res \<Longrightarrow> intruder_warnings (snd res) = intruder_warnings st"
  by (auto simp: send_ans_key_def Let_def send_ans_key_ecdh_warnings
           split: option.splits prod.splits if_splits)

lemma req_key_ext_h_warnings:
  "req_key_ext_h srv c request p reqno st = Some res
   \<Longrightarrow> intruder_warnings (snd res) = intruder_warnings st"
  by (auto simp: req_key_ext_h_def Let_def split: option.splits prod.splits if_splits)

lemma req_key_h_warnings:
  "req_key_h srv c request st = Some res \<Longrightarrow> intruder_warnings (snd res) = intruder_warnings st"
  by (auto simp: req_key_h_def Let_def req_key_ext_h_warnings lookup_node_def
           dest!: send_ans_key_warnings
           split: option.splits prod.splits if_splits)

lemma ans_key_finish_warnings:
  "ans_key_finish srv p a po st = Some res \<Longrightarrow> intruder_warnings (snd res) = intruder_warnings st"
  by (auto simp: ans_key_finish_def Let_def split: option.splits prod.splits if_splits)

lemma ans_key_update_crypto_warnings:
  "ans_key_update_crypto srv p sh k a po st = Some res
   \<Longrightarrow> intruder_warnings (snd res) = intruder_warnings st"
  by (auto simp: ans_key_update_crypto_def Let_def
           dest!: ans_key_finish_warnings
           split: option.splits prod.splits if_splits)

lemma ans_key_legacy_warnings:
  "ans_key_legacy srv p k a po st = Some res \<Longrightarrow> intruder_warnings (snd res) = intruder_warnings st"
  by (auto simp: ans_key_legacy_def Let_def
           dest!: ans_key_finish_warnings
           split: option.splits prod.splits if_splits)

lemma ans_key_forward_warnings:
  "ans_key_forward srv c request f t tn a st = Some res
   \<Longrightarrow> intruder_warnings (snd res) = intruder_warnings st"
  by (auto simp: ans_key_forward_def Let_def split: option.splits prod.splits if_splits)

lemma ans_key_modern_warnings:
  assumes "ans_key_modern srv p key a po st = Some res"
    and "node_tree st p = Some n"
    and "intruder_warnings (snd res) \<noteq> intruder_warnings st"
  shows "\<exists>pubkey. node_read_ecdsa_public_key srv n = Some pubkey
           \<and> length (b64decode srv key) = ECDH_SIZE srv + ecdsa_size srv pubkey
           \<and> \<not> ECDH_SHARED_SIZE srv < cipher_keylength (outcipher n)
           \<and> \<not> ecdsa_verify srv pubkey (take (ECDH_SIZE srv) (b64decode srv key))
                  (drop (ECDH_SIZE srv) (b64decode srv key))
           \<and> fst res"
  using assms
  by (auto simp: ans_key_modern_def Let_def overwrite_take_le overwrite_drop_take
           dest!: send_ans_key_ecdh_warnings ans_key_update_crypto_warnings
           split: option.splits prod.splits if_splits)

lemma send_ans_keys_warnings:
  "send_ans_keys srv cs st = Some st' \<Longrightarrow> intruder_warnings st' = intruder_warnings st"
proof (induction cs arbitrary: st)
  case Nil
  then show ?case by simp
next
  case (Cons c cs)
  then show ?case
    by (auto split: option.splits if_splits dest!: send_ans_key_warnings)
qed

lemma send_key_changed_warnings:
  "send_key_changed srv st = Some st' \<Longrightarrow> intruder_warnings st' = intruder_warnings st"
  by (auto simp: send_key_changed_def split: option.splits dest!: send_ans_keys_warnings)

lemma send_req_key_warnings:
  "send_req_key srv p st = Some res \<Longrightarrow> intruder_warnings (snd res) = intruder_warnings st"
  by (auto simp: send_req_key_def split: option.splits if_splits)

lemma sscanf_ans_key_shape:
  "7 \<le> length (sscanf request ans_key_format) \<Longrightarrow>
   \<exists>f t k ci di ma co rest.
     sscanf request ans_key_format =
       AStr f # AStr t # AStr k # AInt ci # AInt di # AInt ma # AInt co # rest"
  by (auto simp: ans_key_format_def split: option.splits)

lemma ans_key_terminal_warnings:
  assumes "ans_key_terminal srv p key cipher digest maclength compression a po st = Some res"
    and "node_tree st p = Some n"
    and "intruder_warnings (snd res) \<noteq> intruder_warnings st"
  shows "\<exists>oc od pubkey.
           cipher_open_by_nid srv cipher = Some oc
           \<and> digest_open_by_nid srv digest maclength = Some od
           \<and> maclength = int (digest_length od)
           \<and> 0 \<le> compression \<and> compression \<le> 11
           \<and> experimental st \<and> 2 \<le> OPTION_VERSION srv (options n)
           \<and> node_read_ecdsa_public_key srv n = Some pubkey
           \<and> length (b64decode srv key) = ECDH_SIZE srv + ecdsa_size srv pubkey
           \<and> \<not> ECDH_SHARED_SIZE srv < cipher_keylength oc
           \<and> \<not> ecdsa_verify srv pubkey (take (ECDH_SIZE srv) (b64decode srv key))
                  (drop (ECDH_SIZE srv) (b64decode srv key))
           \<and> fst res"
proof -
  from assms(1,3) obtain oc where oc: "cipher_open_by_nid srv cipher = Some oc"
    by (cases "cipher_open_by_nid srv cipher") (auto simp: ans_key_terminal_def assms(2))
  from assms(1,3) obtain od where od: "digest_open_by_nid srv digest maclength = Some od"
    by (cases "digest_open_by_nid srv digest maclength")
       (auto simp: ans_key_terminal_def assms(2) oc)
  have ml: "maclength = int (digest_length od)"
    using assms(1,3) by (auto simp: ans_key_terminal_def assms(2) oc od split: if_splits)
  have co: "0 \<le> compression \<and> compression \<le> 11"
    using assms(1,3) ml [symmetric]
    by (auto simp: ans_key_terminal_def assms(2) oc od split: if_splits)
  let ?n3 = "n\<lparr>outcipher := oc, outdigest := od, outcompression := compression\<rparr>"
  let ?st3 = "set_node p ?n3 st"
  have eq: "ans_key_terminal srv p key cipher digest maclength compression a po st =
           (if experimental st \<and> OPTION_VERSION srv (options n) \<ge> 2
            then ans_key_modern srv p key a po ?st3
            else ans_key_legacy srv p key a po ?st3)"
    using ans_key_terminal_valid [OF assms(2) oc od ml] co by simp
  have w3: "intruder_warnings ?st3 = intruder_warnings st" by simp
  have modern: "experimental st \<and> 2 \<le> OPTION_VERSION srv (options n)"
  proof (rule ccontr)
    assume "\<not> (experimental st \<and> 2 \<le> OPTION_VERSION srv (options n))"
    then have "ans_key_legacy srv p key a po ?st3 = Some res"
      using assms(1) eq by (simp split: if_splits)
    from ans_key_legacy_warnings [OF this] w3 assms(3) show False by simp
  qed
  then have m: "ans_key_modern srv p key a po ?st3 = Some res"
    using assms(1) eq by simp
  have n3: "node_tree ?st3 p = Some ?n3" by simp
  from ans_key_modern_warnings [OF m n3] w3 assms(3)
  show ?thesis using oc od ml co modern by simp
qed

lemma ans_key_h_warnings:
  assumes "ans_key_h srv c request st = Some res"
    and "intruder_warnings (snd res) \<noteq> intruder_warnings st"
  shows "\<exists>from_name to_name key cipher digest maclength compression rest from_n oc od pubkey.
           sscanf request ans_key_format =
             AStr from_name # AStr to_name # AStr key # AInt cipher # AInt digest
               # AInt maclength # AInt compression # rest
           \<and> check_id srv from_name \<and> check_id srv to_name
           \<and> lookup_node from_name st = Some from_n
           \<and> lookup_node to_name st \<noteq> None
           \<and> to_name = myself st
           \<and> cipher_open_by_nid srv cipher = Some oc
           \<and> digest_open_by_nid srv digest maclength = Some od
           \<and> maclength = int (digest_length od)
           \<and> 0 \<le> compression \<and> compression \<le> 11
           \<and> experimental st \<and> 2 \<le> OPTION_VERSION srv (options from_n)
           \<and> node_read_ecdsa_public_key srv from_n = Some pubkey
           \<and> length (b64decode srv key) = ECDH_SIZE srv + ecdsa_size srv pubkey
           \<and> \<not> ECDH_SHARED_SIZE srv < cipher_keylength oc
           \<and> \<not> ecdsa_verify srv pubkey (take (ECDH_SIZE srv) (b64decode srv key))
                  (drop (ECDH_SIZE srv) (b64decode srv key))
           \<and> fst res"
proof -
  have len: "7 \<le> length (sscanf request ans_key_format)"
    using assms by (auto simp: ans_key_h_def Let_def split: if_splits)
  from sscanf_ans_key_shape [OF len] obtain f t k ci di ma co rest where
    shape: "sscanf request ans_key_format =
              AStr f # AStr t # AStr k # AInt ci # AInt di # AInt ma # AInt co # rest"
    by blast
  have ids: "check_id srv f \<and> check_id srv t"
    using assms by (auto simp: ans_key_h_def shape Let_def split: if_splits)
  obtain from_n where fl: "lookup_node f st = Some from_n"
    using assms ids by (cases "lookup_node f st") (auto simp: ans_key_h_def shape Let_def)
  obtain to_n where tl: "lookup_node t st = Some to_n"
    using assms ids fl by (cases "lookup_node t st") (auto simp: ans_key_h_def shape Let_def)
  have eq: "ans_key_h srv c request st =
           (if t \<noteq> myself st
            then ans_key_forward srv c request from_n to_n t (optional_S rest 0) st
            else ans_key_terminal srv f k ci di ma co (optional_S rest 0) (optional_S rest 1) st)"
    using ans_key_h_parsed [OF shape _ _ fl tl] ids by simp
  have me: "t = myself st"
  proof (rule ccontr)
    assume "t \<noteq> myself st"
    then have "ans_key_forward srv c request from_n to_n t (optional_S rest 0) st = Some res"
      using assms(1) eq by simp
    from ans_key_forward_warnings [OF this] assms(2) show False by simp
  qed
  then have tm: "ans_key_terminal srv f k ci di ma co (optional_S rest 0) (optional_S rest 1) st
                     = Some res"
    using assms(1) eq by simp
  have n: "node_tree st f = Some from_n" using fl by (simp add: lookup_node_def)
  from ans_key_terminal_warnings [OF tm n assms(2)]
  show ?thesis using shape ids fl tl me by auto
qed

text \<open>
  C2, as the code has it. An \<open>ANS_KEY\<close> addressed to ourselves is checked in this order:
  the algorithms (a failure is a hard error), the compression level, the branch
  (\<open>experimental\<close> and protocol version 2 or more), the ECDSA public key, the length of
  the decoded key, the key length of the cipher against \<open>ECDH_SHARED_SIZE\<close>, and only
  then the signature. Where all the checks before it pass and \<open>ecdsa_verify\<close> fails,
  \<open>ans_key_h\<close> logs "Possible intruder" (with priority \<open>LOG_ERR\<close>), returns true and
  leaves \<open>status.validkey\<close> as it was. Conversely, a call of \<open>ans_key_h\<close> that adds a
  "Possible intruder" message to the log is such a call, and no other function of the
  file adds one.
\<close>

theorem ans_key_h_intruder:
  "(sscanf request ans_key_format =
      AStr from_name # AStr to_name # AStr key # AInt cipher # AInt digest
        # AInt maclength # AInt compression # rest
    \<and> check_id srv from_name \<and> check_id srv to_name
    \<and> lookup_node from_name st = Some from_n
    \<and> lookup_node to_name st = Some to_n
    \<and> to_name = myself st
    \<and> cipher_open_by_nid srv cipher = Some oc
    \<and> digest_open_by_nid srv digest maclength = Some od
    \<and> maclength = int (digest_length od)
    \<and> 0 \<le> compression \<and> compression \<le> 11
    \<and> experimental st \<and> 2 \<le> OPTION_VERSION srv (options from_n)
    \<and> node_read_ecdsa_public_key srv from_n = Some pubkey
    \<and> length (b64decode srv key) = ECDH_SIZE srv + ecdsa_size srv pubkey
    \<and> \<not> ECDH_SHARED_SIZE srv < cipher_keylength oc
    \<and> \<not> ecdsa_verify srv pubkey (take (ECDH_SIZE srv) (b64decode srv key))
           (drop (ECDH_SIZE srv) (b64decode srv key))
    \<longrightarrow> (\<exists>st' n'. ans_key_h srv c request st = Some (True, st')
           \<and> logged st' = logged st @
                [(DEBUG_ALWAYS, LOG_ERR,
                  ''Possible intruder '' @ name from_n @ '' ('' @ hostname from_n
                    @ ''): invalid ECDSA signature'')]
           \<and> node_tree st' from_name = Some n'
           \<and> status_validkey n' = status_validkey from_n))
   \<and> (ans_key_h srv c request st = Some res
      \<and> intruder_warnings (snd res) \<noteq> intruder_warnings st
      \<longrightarrow> (\<exists>from_name to_name key cipher digest maclength compression rest from_n oc od pubkey.
           sscanf request ans_key_format =
             AStr from_name # AStr to_name # AStr key # AInt cipher # AInt digest
               # AInt maclength # AInt compression # rest
           \<and> check_id srv from_name \<and> check_id srv to_name
           \<and> lookup_node from_name st = Some from_n
           \<and> lookup_node to_name st \<noteq> None
           \<and> to_name = myself st
           \<and> cipher_open_by_nid srv cipher = Some oc
           \<and> digest_open_by_nid srv digest maclength = Some od
           \<and> maclength = int (digest_length od)
           \<and> 0 \<le> compression \<and> compression \<le> 11
           \<and> experimental st \<and> 2 \<le> OPTION_VERSION srv (options from_n)
           \<and> node_read_ecdsa_public_key srv from_n = Some pubkey
           \<and> length (b64decode srv key) = ECDH_SIZE srv + ecdsa_size srv pubkey
           \<and> \<not> ECDH_SHARED_SIZE srv < cipher_keylength oc
           \<and> \<not> ecdsa_verify srv pubkey (take (ECDH_SIZE srv) (b64decode srv key))
                  (drop (ECDH_SIZE srv) (b64decode srv key))
           \<and> fst res))
   \<and> intruder_warnings (snd (key_changed_h c request st)) = intruder_warnings st
   \<and> (req_key_h srv c request st = Some res \<longrightarrow> intruder_warnings (snd res) = intruder_warnings st)
   \<and> (send_ans_key srv to_p st = Some res \<longrightarrow> intruder_warnings (snd res) = intruder_warnings st)
   \<and> (send_req_key srv to_p st = Some res \<longrightarrow> intruder_warnings (snd res) = intruder_warnings st)
   \<and> (send_key_changed srv st = Some st2 \<longrightarrow> intruder_warnings st2 = intruder_warnings st)"
proof (intro conjI impI)
  assume a: "sscanf request ans_key_format =
      AStr from_name # AStr to_name # AStr key # AInt cipher # AInt digest
        # AInt maclength # AInt compression # rest
    \<and> check_id srv from_name \<and> check_id srv to_name
    \<and> lookup_node from_name st = Some from_n
    \<and> lookup_node to_name st = Some to_n
    \<and> to_name = myself st
    \<and> cipher_open_by_nid srv cipher = Some oc
    \<and> digest_open_by_nid srv digest maclength = Some od
    \<and> maclength = int (digest_length od)
    \<and> 0 \<le> compression \<and> compression \<le> 11
    \<and> experimental st \<and> 2 \<le> OPTION_VERSION srv (options from_n)
    \<and> node_read_ecdsa_public_key srv from_n = Some pubkey
    \<and> length (b64decode srv key) = ECDH_SIZE srv + ecdsa_size srv pubkey
    \<and> \<not> ECDH_SHARED_SIZE srv < cipher_keylength oc
    \<and> \<not> ecdsa_verify srv pubkey (take (ECDH_SIZE srv) (b64decode srv key))
           (drop (ECDH_SIZE srv) (b64decode srv key))"
  from a have p: "sscanf request ans_key_format =
      AStr from_name # AStr to_name # AStr key # AInt cipher # AInt digest
        # AInt maclength # AInt compression # rest"
    and ids: "check_id srv from_name" "check_id srv to_name"
    and lk: "lookup_node from_name st = Some from_n" "lookup_node to_name st = Some to_n"
    and me: "to_name = myself st"
    and alg: "cipher_open_by_nid srv cipher = Some oc"
      "digest_open_by_nid srv digest maclength = Some od"
      "maclength = int (digest_length od)" "0 \<le> compression" "compression \<le> 11"
    and modern: "experimental st \<and> 2 \<le> OPTION_VERSION srv (options from_n)"
    and pk: "node_read_ecdsa_public_key srv from_n = Some pubkey"
    and len: "length (b64decode srv key) = ECDH_SIZE srv + ecdsa_size srv pubkey"
    and short: "\<not> ECDH_SHARED_SIZE srv < cipher_keylength oc"
    and forged: "\<not> ecdsa_verify srv pubkey (take (ECDH_SIZE srv) (b64decode srv key))
           (drop (ECDH_SIZE srv) (b64decode srv key))"
    by blast+
  let ?n3 = "from_n\<lparr>outcipher := oc, outdigest := od, outcompression := compression\<rparr>"
  let ?st3 = "set_node from_name ?n3 st"
  have n: "node_tree st from_name = Some from_n"
    using lk(1) by (simp add: lookup_node_def)
  have h: "ans_key_h srv c request st =
             ans_key_terminal srv from_name key cipher digest maclength compression
               (optional_S rest 0) (optional_S rest 1) st"
    using ans_key_h_parsed [OF p ids lk] me by simp
  have t: "ans_key_terminal srv from_name key cipher digest maclength compression
               (optional_S rest 0) (optional_S rest 1) st
           = ans_key_modern srv from_name key (optional_S rest 0) (optional_S rest 1) ?st3"
    using ans_key_terminal_valid [OF n alg] modern by simp
  have n3: "node_tree ?st3 from_name = Some ?n3" by simp
  have pk3: "node_read_ecdsa_public_key srv ?n3 = Some pubkey" using pk by simp
  have short3: "\<not> ECDH_SHARED_SIZE srv < cipher_keylength (outcipher ?n3)" using short by simp
  have m: "ans_key_modern srv from_name key (optional_S rest 0) (optional_S rest 1) ?st3 =
           Some (True, logger DEBUG_ALWAYS LOG_ERR
                   (''Possible intruder '' @ name ?n3 @ '' ('' @ hostname ?n3
                      @ ''): invalid ECDSA signature'')
                   (set_node from_name (?n3\<lparr>ecdsa := Some pubkey\<rparr>) ?st3))"
    by (rule ans_key_modern_intruder [OF n3 pk3 len short3 forged])
  show "\<exists>st' n'. ans_key_h srv c request st = Some (True, st')
           \<and> logged st' = logged st @
                [(DEBUG_ALWAYS, LOG_ERR,
                  ''Possible intruder '' @ name from_n @ '' ('' @ hostname from_n
                    @ ''): invalid ECDSA signature'')]
           \<and> node_tree st' from_name = Some n'
           \<and> status_validkey n' = status_validkey from_n"
    unfolding h t m by (simp add: logger_def set_node_def)
next
  assume "ans_key_h srv c request st = Some res
      \<and> intruder_warnings (snd res) \<noteq> intruder_warnings st"
  then show "\<exists>from_name to_name key cipher digest maclength compression rest from_n oc od pubkey.
           sscanf request ans_key_format =
             AStr from_name # AStr to_name # AStr key # AInt cipher # AInt digest
               # AInt maclength # AInt compression # rest
           \<and> check_id srv from_name \<and> check_id srv to_name
           \<and> lookup_node from_name st = Some from_n
           \<and> lookup_node to_name st \<noteq> None
           \<and> to_name = myself st
           \<and> cipher_open_by_nid srv cipher = Some oc
           \<and> digest_open_by_nid srv digest maclength = Some od
           \<and> maclength = int (digest_length od)
           \<and> 0 \<le> compression \<and> compression \<le> 11
           \<and> experimental st \<and> 2 \<le> OPTION_VERSION srv (options from_n)
           \<and> node_read_ecdsa_public_key srv from_n = Some pubkey
           \<and> length (b64decode srv key) = ECDH_SIZE srv + ecdsa_size srv pubkey
           \<and> \<not> ECDH_SHARED_SIZE srv < cipher_keylength oc
           \<and> \<not> ecdsa_verify srv pubkey (take (ECDH_SIZE srv) (b64decode srv key))
                  (drop (ECDH_SIZE srv) (b64decode srv key))
           \<and> fst res"
    using ans_key_h_warnings [of srv c request st res] by blast
next
  show "intruder_warnings (snd (key_changed_h c request st)) = intruder_warnings st"
    by (rule key_changed_h_warnings)
next
  assume "req_key_h srv c request st = Some res"
  then show "intruder_warnings (snd res) = intruder_warnings st"
    by (rule req_key_h_warnings)
next
  assume "send_ans_key srv to_p st = Some res"
  then show "intruder_warnings (snd res) = intruder_warnings st"
    by (rule send_ans_key_warnings)
next
  assume "send_req_key srv to_p st = Some res"
  then show "intruder_warnings (snd res) = intruder_warnings st"
    by (rule send_req_key_warnings)
next
  assume "send_key_changed srv st = Some st2"
  then show "intruder_warnings st2 = intruder_warnings st"
    by (rule send_key_changed_warnings)
qed

theorem ans_key_h_intruder_counterexample:
  "experimental demo_state \<and> 2 \<le> OPTION_VERSION demo_services (options carol)
   \<and> node_read_ecdsa_public_key demo_services carol = Some ''KC''
   \<and> length (b64decode demo_services ''GGGGKx'')
       = ECDH_SIZE demo_services + ecdsa_size demo_services ''KC''
   \<and> \<not> ecdsa_verify demo_services ''KC''
          (take (ECDH_SIZE demo_services) (b64decode demo_services ''GGGGKx''))
          (drop (ECDH_SIZE demo_services) (b64decode demo_services ''GGGGKx''))
   \<and> map_option (\<lambda>(r, s). (r, logged s))
        (ans_key_h demo_services demo_conn ''16 carol alice GGGGKx 99 2 4 0'' demo_state)
       = Some (False, [(DEBUG_ALWAYS, LOG_ERR, ''Node carol (carol.example) uses unknown cipher!'')])
   \<and> map_option (\<lambda>(r, s). (r, logged s))
        (ans_key_h demo_services demo_conn ''16 carol alice GGGGKx 3 2 4 0'' demo_state)
       = Some (True, [(DEBUG_ALWAYS, LOG_ERR, ''ECDH key too short for cipher of carol!'')])"
  by code_simp

theorem ans_key_h_intruder_witness:
  "\<exists>st' n'. ans_key_h demo_services demo_conn ''16 carol alice GGGGKx 2 2 4 0'' demo_state
              = Some (True, st')
     \<and> logged st' =
          [(DEBUG_ALWAYS, LOG_ERR,
            ''Possible intruder carol (carol.example): invalid ECDSA signature'')]
     \<and> node_tree st' ''carol'' = Some n'
     \<and> status_validkey n' = True"
proof -
  have p: "sscanf ''16 carol alice GGGGKx 2 2 4 0'' ans_key_format =
             AStr ''carol'' # AStr ''alice'' # AStr ''GGGGKx'' # AInt 2 # AInt 2 # AInt 4
               # AInt 0 # []"
    by code_simp
  have i: "check_id demo_services ''carol''" "check_id demo_services ''alice''"
    by code_simp+
  have l: "lookup_node ''carol'' demo_state = Some carol"
    "lookup_node ''alice'' demo_state = Some alice"
    by (simp_all add: lookup_node_def demo_state_def)
  have m: "''alice'' = myself demo_state" by (simp add: demo_state_def)
  have a: "cipher_open_by_nid demo_services 2 = Some (demo_cipher 2 3 [])"
    "digest_open_by_nid demo_services 2 4 = Some (demo_digest [])"
    "4 = int (digest_length (demo_digest []))" "(0::int) \<le> 0" "(0::int) \<le> 11"
    by (simp_all add: demo_services_def demo_digest_def)
  have v: "experimental demo_state" "2 \<le> OPTION_VERSION demo_services (options carol)"
    by (simp_all add: demo_state_def demo_services_def carol_def demo_node_def)
  have k: "node_read_ecdsa_public_key demo_services carol = Some ''KC''"
    by (simp add: node_read_ecdsa_public_key_def carol_def demo_node_def)
  have e: "length (b64decode demo_services ''GGGGKx'')
             = ECDH_SIZE demo_services + ecdsa_size demo_services ''KC''"
    "\<not> ECDH_SHARED_SIZE demo_services < cipher_keylength (demo_cipher 2 3 [])"
    "\<not> ecdsa_verify demo_services ''KC'' (take (ECDH_SIZE demo_services) (b64decode demo_services ''GGGGKx''))
         (drop (ECDH_SIZE demo_services) (b64decode demo_services ''GGGGKx''))"
    by (simp_all add: demo_services_def demo_cipher_def)
  have b: "name carol = ''carol''" "hostname carol = ''carol.example''"
    "status_validkey carol = True" "logged demo_state = []"
    by (simp_all add: carol_def demo_node_def demo_state_def)
  have "\<exists>st' n'. ans_key_h demo_services demo_conn ''16 carol alice GGGGKx 2 2 4 0'' demo_state
              = Some (True, st')
     \<and> logged st' = logged demo_state @
          [(DEBUG_ALWAYS, LOG_ERR,
            ''Possible intruder '' @ name carol @ '' ('' @ hostname carol
               @ ''): invalid ECDSA signature'')]
     \<and> node_tree st' ''carol'' = Some n'
     \<and> status_validkey n' = status_validkey carol"
    using ans_key_h_intruder [of "''16 carol alice GGGGKx 2 2 4 0''" "''carol''" "''alice''"
        "''GGGGKx''" 2 2 4 0 "[]" demo_services demo_state carol alice "demo_cipher 2 3 []"
        "demo_digest []" "''KC''" demo_conn, THEN conjunct1]
      p i l m a v k e
    by blast
  then show ?thesis by (simp only: b append_Nil append_Cons)
qed

section \<open>Requests for a third party, and REQ\_KEY for ourselves\<close>

lemma req_key_h_parsed:
  assumes "sscanf request req_key_format = AStr from_name # AStr to_name # rest"
    and "check_id srv from_name" and "check_id srv to_name"
    and "lookup_node from_name st = Some from_n"
    and "lookup_node to_name st = Some to_n"
  shows "req_key_h srv c request st =
           (if to_name = myself st then
              (if experimental st \<and> optional_I rest 0 \<noteq> 0
               then req_key_ext_h srv c request from_name (optional_I rest 0) st
               else (case send_ans_key srv from_name st of
                       None \<Rightarrow> None
                     | Some (r, st1) \<Rightarrow> Some (True, st1)))
            else if tunnelserver st then Some (True, st)
            else if \<not> status_reachable to_n then
              Some (True, logger DEBUG_ALWAYS LOG_WARNING
                      (''Got REQ_KEY from '' @ conn_name c @ '' ('' @ conn_hostname c
                         @ '') destination '' @ to_name @ '' which is not reachable'') st)
            else
              (case nexthop_connection st to_n of
                 None \<Rightarrow> None
               | Some nc \<Rightarrow> Some (True, snd (send_request srv nc request st))))"
  using assms by (simp add: req_key_h_def Let_def)

text \<open>
  C7, as the code has it. For a well-formed \<open>REQ_KEY\<close> addressed to ourselves from a known
  node, \<open>req_key_h\<close> is \<open>req_key_ext_h\<close> exactly when the flag \<open>experimental\<close> of the
  process is set and the request number parsed is not 0, whatever the protocol version
  in the options of the origin; otherwise it calls \<open>send_ans_key\<close> for the origin and
  returns true.
\<close>

theorem req_key_h_to_myself:
  assumes "sscanf request req_key_format = AStr from_name # AStr to_name # rest"
    and "check_id srv from_name" and "check_id srv to_name"
    and "lookup_node from_name st = Some from_n"
    and "lookup_node to_name st = Some to_n"
    and "to_name = myself st"
  shows "(experimental st \<and> optional_I rest 0 \<noteq> 0 \<longrightarrow>
            req_key_h srv c request st
              = req_key_ext_h srv c request from_name (optional_I rest 0) st)
       \<and> (\<not> (experimental st \<and> optional_I rest 0 \<noteq> 0) \<longrightarrow>
            req_key_h srv c request st
              = (case send_ans_key srv from_name st of
                   None \<Rightarrow> None
                 | Some (r, st1) \<Rightarrow> Some (True, st1)))"
  using req_key_h_parsed [OF assms(1-5)] assms(6) by simp

theorem req_key_h_to_myself_counterexample:
  "OPTION_VERSION demo_services (options bob) < 2
   \<and> map_option (\<lambda>(r, s). requests_sent s)
        (req_key_h demo_services demo_conn ''15 bob alice 19'' demo_state)
       = Some [(Some 1, ''15 alice bob 20 KA'')]
   \<and> map_option (\<lambda>(r, s). requests_sent s) (send_ans_key demo_services ''bob'' demo_state)
       = Some [(Some 1, ''16 alice bob rr 1 2 4 0'')]
   \<and> 2 \<le> OPTION_VERSION demo_services (options carol)
   \<and> map_option (\<lambda>(r, s). requests_sent s)
        (req_key_h demo_services demo_conn ''15 carol alice 19''
           (demo_state\<lparr>experimental := False\<rparr>))
       = Some [(Some 2, ''16 alice carol rr 1 2 4 0'')]"
  by code_simp

theorem req_key_h_to_myself_witness:
  "req_key_h demo_services demo_conn ''15 bob alice 19'' demo_state
     = req_key_ext_h demo_services demo_conn ''15 bob alice 19'' ''bob'' 19 demo_state
   \<and> req_key_h demo_services demo_conn ''15 bob alice'' demo_state
     = (case send_ans_key demo_services ''bob'' demo_state of
          None \<Rightarrow> None
        | Some (r, st1) \<Rightarrow> Some (True, st1))"
proof -
  have p: "sscanf ''15 bob alice 19'' req_key_format = AStr ''bob'' # AStr ''alice'' # [AInt 19]"
    and p': "sscanf ''15 bob alice'' req_key_format = AStr ''bob'' # AStr ''alice'' # []"
    by code_simp+
  have i: "check_id demo_services ''bob''" "check_id demo_services ''alice''"
    by code_simp+
  have l: "lookup_node ''bob'' demo_state = Some bob" "lookup_node ''alice'' demo_state = Some alice"
    by (simp_all add: lookup_node_def demo_state_def)
  have m: "''alice'' = myself demo_state" by (simp add: demo_state_def)
  have e: "experimental demo_state" "optional_I [AInt 19] 0 = 19" "optional_I [] 0 = 0"
    by (simp_all add: demo_state_def optional_I_def)
  show ?thesis
    using req_key_h_to_myself [OF p i l m, of demo_conn]
      req_key_h_to_myself [OF p' i l m, of demo_conn] e
    by simp
qed

lemma ans_key_forward_nodes:
  "ans_key_forward srv c request f t tn a st = Some res \<Longrightarrow> node_tree (snd res) = node_tree st"
  by (auto simp: ans_key_forward_def logger_def send_request_def
           split: option.splits if_splits)

text \<open>
  C6. For a well-formed \<open>ANS_KEY\<close> between known nodes whose destination is not
  ourselves, is reachable and has a next hop, with \<open>tunnelserver\<close> off, \<open>ans_key_h\<close> hands
  one request to \<open>send_request\<close> for the connection of the next hop of the destination:
  the request received followed by the address and the port of \<open>from->address\<close> exactly
  when the request has no reflexive address field and the family of \<open>from->address\<close> is
  not \<open>AF_UNSPEC\<close>, the request as received otherwise. However \<open>ans_key_h\<close> or \<open>req_key_h\<close>
  returns for a destination that is not ourselves, the node tree is what it was.
\<close>

theorem ans_key_h_relay:
  assumes "sscanf request ans_key_format =
             AStr from_name # AStr to_name # AStr key # AInt cipher # AInt digest
               # AInt maclength # AInt compression # rest"
    and "check_id srv from_name" and "check_id srv to_name"
    and "lookup_node from_name st = Some from_n"
    and "lookup_node to_name st = Some to_n"
    and "to_name \<noteq> myself st"
  shows "(\<not> tunnelserver st \<and> status_reachable to_n \<and> nexthop_connection st to_n = Some nc \<longrightarrow>
            (\<exists>r st'. ans_key_h srv c request st = Some (r, st')
               \<and> requests_sent st' = requests_sent st @
                    [(nc, if optional_S rest 0 = [] \<and> sa_family (address from_n) \<noteq> AF_UNSPEC
                          then request @ '' '' @ fst (sockaddr2str srv (address from_n)) @ '' ''
                                 @ snd (sockaddr2str srv (address from_n))
                          else request)]))
       \<and> (\<forall>res. ans_key_h srv c request st = Some res \<longrightarrow> node_tree (snd res) = node_tree st)
       \<and> (\<forall>request2 f2 rest2 f2_n res.
             sscanf request2 req_key_format = AStr f2 # AStr to_name # rest2
             \<and> check_id srv f2 \<and> lookup_node f2 st = Some f2_n
             \<and> req_key_h srv c request2 st = Some res
             \<longrightarrow> node_tree (snd res) = node_tree st)"
proof -
  have h: "ans_key_h srv c request st =
             ans_key_forward srv c request from_n to_n to_name (optional_S rest 0) st"
    using ans_key_h_parsed [OF assms(1-5)] assms(6) by simp
  have first: "\<exists>r st'. ans_key_h srv c request st = Some (r, st')
               \<and> requests_sent st' = requests_sent st @
                    [(nc, if optional_S rest 0 = [] \<and> sa_family (address from_n) \<noteq> AF_UNSPEC
                          then request @ '' '' @ fst (sockaddr2str srv (address from_n)) @ '' ''
                                 @ snd (sockaddr2str srv (address from_n))
                          else request)]"
    if "\<not> tunnelserver st" "status_reachable to_n" "nexthop_connection st to_n = Some nc"
    unfolding h using that
    by (auto simp: ans_key_forward_def send_request_def logger_def)
  have second: "node_tree (snd res) = node_tree st" if "ans_key_h srv c request st = Some res" for res
    using that unfolding h by (rule ans_key_forward_nodes)
  have third: "node_tree (snd res) = node_tree st"
    if "sscanf request2 req_key_format = AStr f2 # AStr to_name # rest2"
      "check_id srv f2" "lookup_node f2 st = Some f2_n"
      "req_key_h srv c request2 st = Some res" for request2 f2 rest2 f2_n res
    using that(4) req_key_h_parsed [OF that(1,2) assms(3) that(3) assms(5), of c] assms(6)
    by (auto simp: logger_def send_request_def split: if_splits option.splits)
  show ?thesis using first second third by blast
qed

theorem ans_key_h_relay_witness:
  "(\<exists>r st'. ans_key_h demo_services demo_conn ''16 bob carol kk 1 2 4 0'' demo_state = Some (r, st')
       \<and> requests_sent st' = [(Some 2, ''16 bob carol kk 1 2 4 0 203.0.113.5 1655'')])
   \<and> (\<exists>r st'. ans_key_h demo_services demo_conn ''16 bob carol kk 1 2 4 0 192.0.2.7 655''
                  demo_state = Some (r, st')
       \<and> requests_sent st' = [(Some 2, ''16 bob carol kk 1 2 4 0 192.0.2.7 655'')])"
proof -
  have p: "sscanf ''16 bob carol kk 1 2 4 0'' ans_key_format =
             AStr ''bob'' # AStr ''carol'' # AStr ''kk'' # AInt 1 # AInt 2 # AInt 4 # AInt 0 # []"
    and p': "sscanf ''16 bob carol kk 1 2 4 0 192.0.2.7 655'' ans_key_format =
             AStr ''bob'' # AStr ''carol'' # AStr ''kk'' # AInt 1 # AInt 2 # AInt 4 # AInt 0
               # [AStr ''192.0.2.7'', AStr ''655'']"
    by code_simp+
  have i: "check_id demo_services ''bob''" "check_id demo_services ''carol''"
    by code_simp+
  have l: "lookup_node ''bob'' demo_state = Some bob" "lookup_node ''carol'' demo_state = Some carol"
    by (simp_all add: lookup_node_def demo_state_def)
  have m: "''carol'' \<noteq> myself demo_state" by (simp add: demo_state_def)
  have r: "\<not> tunnelserver demo_state \<and> status_reachable carol
             \<and> nexthop_connection demo_state carol = Some (Some 2)"
    by (simp add: demo_state_def carol_def demo_node_def nexthop_connection_def)
  have b: "requests_sent demo_state = []" "optional_S [] 0 = []"
    "optional_S [AStr ''192.0.2.7'', AStr ''655''] 0 = ''192.0.2.7''"
    "sa_family (address bob) \<noteq> AF_UNSPEC"
    "sockaddr2str demo_services (address bob) = (''203.0.113.5'', ''1655'')"
    by (simp_all add: demo_state_def optional_S_def bob_def demo_node_def AF_UNSPEC_def
          demo_services_def)
  show ?thesis
    using ans_key_h_relay [OF p i l m, of "Some 2" demo_conn, THEN conjunct1]
      ans_key_h_relay [OF p' i l m, of "Some 2" demo_conn, THEN conjunct1] r b
    by simp
qed

section \<open>Installing keys and resetting the counters\<close>

lemma ans_key_update_crypto_install:
  assumes "node_tree st p = Some n"
    and "node_tree st (myself st) = Some me"
    and "key_expansion srv (name me) (name n) (cipher_keylength (incipher me))
           (cipher_keylength (outcipher n)) shared key = Some (mykey, hiskey)"
  shows "\<exists>st'. ans_key_update_crypto srv p shared key a po st = Some (True, st')
           \<and> node_tree st' p =
               Some (n\<lparr>incipher :=
                         cipher_set_key
                           (cipher_reopen srv (incipher n) (cipher_get_nid (incipher me)))
                           mykey False,
                       indigest :=
                         digest_set_key
                           (digest_reopen srv (indigest n) (digest_get_nid (indigest me))
                              (int (digest_length (indigest me))))
                           (drop (cipher_keylength (incipher me)) mykey)
                           (cipher_keylength (incipher me)),
                       incompression := incompression me,
                       outcipher := cipher_set_key (outcipher n) hiskey True,
                       outdigest :=
                         digest_set_key (outdigest n)
                           (drop (cipher_keylength (outcipher n)) hiskey)
                           (cipher_keylength (outcipher n)),
                       received_seqno := 0,
                       late := reset_late st (late n),
                       status_validkey := True, sent_seqno := 0,
                       address := (if a \<noteq> [] \<and> po \<noteq> [] then str2sockaddr srv a po
                                   else address n)\<rparr>)
           \<and> mykeyused st'"
proof -
  let ?n8 = "n\<lparr>incipher :=
                         cipher_set_key
                           (cipher_reopen srv (incipher n) (cipher_get_nid (incipher me)))
                           mykey False,
                       indigest :=
                         digest_set_key
                           (digest_reopen srv (indigest n) (digest_get_nid (indigest me))
                              (int (digest_length (indigest me))))
                           (drop (cipher_keylength (incipher me)) mykey)
                           (cipher_keylength (incipher me)),
                       incompression := incompression me,
                       outcipher := cipher_set_key (outcipher n) hiskey True,
                       outdigest :=
                         digest_set_key (outdigest n)
                           (drop (cipher_keylength (outcipher n)) hiskey)
                           (cipher_keylength (outcipher n)),
                       received_seqno := 0,
                       late := reset_late st (late n)\<rparr>"
  let ?st8 = "set_node p ?n8 (st\<lparr>mykeyused := True\<rparr>)"
  have u: "ans_key_update_crypto srv p shared key a po st = ans_key_finish srv p a po ?st8"
    using assms by (simp add: ans_key_update_crypto_def)
  have n8: "node_tree ?st8 p = Some ?n8" by simp
  have k: "mykeyused ?st8" by (simp add: set_node_def)
  from ans_key_finish_result [OF n8, of srv a po] k show ?thesis
    unfolding u by auto
qed

lemma nexthop_connection_set_node:
  assumes "node_tree st p = Some n" and "connection n' = connection n"
    and "node_tree st0 = node_tree st"
  shows "nexthop_connection (set_node p n' st0) m = nexthop_connection st m"
  using assms by (auto simp: nexthop_connection_def set_node_def split: option.splits)

lemma send_ans_key_install:
  assumes "node_tree st to_p = Some to_n"
    and "\<not> (experimental st \<and> OPTION_VERSION srv (options to_n) \<ge> 2)"
    and "node_tree st (myself st) = Some me"
    and "nexthop_connection st to_n = Some nc"
  shows "\<exists>r st'. send_ans_key srv to_p st = Some (r, st')
           \<and> node_tree st' to_p =
               Some (to_n
                       \<lparr>incipher :=
                          cipher_set_key
                            (cipher_reopen srv (incipher to_n) (cipher_get_nid (incipher me)))
                            (take (cipher_keylength (incipher me))
                               (randomize srv (random_draws st) (cipher_keylength (incipher me))))
                            False,
                        indigest :=
                          digest_set_key
                            (digest_reopen srv (indigest to_n) (digest_get_nid (indigest me))
                               (int (digest_length (indigest me))))
                            (take (cipher_keylength (incipher me))
                               (randomize srv (random_draws st) (cipher_keylength (incipher me))))
                            (cipher_keylength (incipher me)),
                        incompression := incompression me,
                        received_seqno := 0,
                        late := reset_late st (late to_n)\<rparr>)
           \<and> mykeyused st'"
proof -
  let ?key = "take (cipher_keylength (incipher me))
                (randomize srv (random_draws st) (cipher_keylength (incipher me)))"
  let ?to1 = "to_n
                       \<lparr>incipher :=
                          cipher_set_key
                            (cipher_reopen srv (incipher to_n) (cipher_get_nid (incipher me)))
                            ?key False,
                        indigest :=
                          digest_set_key
                            (digest_reopen srv (indigest to_n) (digest_get_nid (indigest me))
                               (int (digest_length (indigest me))))
                            ?key (cipher_keylength (incipher me)),
                        incompression := incompression me,
                        received_seqno := 0,
                        late := reset_late st (late to_n)\<rparr>"
  let ?st1 = "set_node to_p ?to1 (st\<lparr>random_draws := Suc (random_draws st), mykeyused := True\<rparr>)"
  have c: "nexthop_connection ?st1 ?to1 = Some nc"
    using nexthop_connection_set_node [OF assms(1), of ?to1
            "st\<lparr>random_draws := Suc (random_draws st), mykeyused := True\<rparr>" ?to1] assms(4)
    by (simp add: nexthop_connection_def)
  have u: "send_ans_key srv to_p st =
          (case nexthop_connection ?st1 ?to1 of
             None \<Rightarrow> None
           | Some nc \<Rightarrow>
               Some (send_request srv nc
                  (ans_key_request srv (name me) (name ?to1) (bin2hex srv ?key)
                     (cipher_get_nid (incipher ?to1)) (digest_get_nid (indigest ?to1))
                     (digest_length (indigest ?to1)) (incompression ?to1)) ?st1))"
    using assms(1,3) by (simp add: send_ans_key_def Let_def if_not_P [OF assms(2)])
  have n1: "node_tree ?st1 to_p = Some ?to1" by simp
  have k: "mykeyused ?st1" by (simp add: set_node_def)
  show ?thesis
    unfolding u c using n1 k by (simp add: send_request_def)
qed


lemma ans_key_h_modern_install:
  assumes "sscanf request ans_key_format =
             AStr from_name # AStr to_name # AStr key # AInt cipher # AInt digest
               # AInt maclength # AInt compression # rest"
    and "check_id srv from_name" and "check_id srv to_name"
    and "lookup_node from_name st = Some from_n"
    and "lookup_node to_name st = Some to_n"
    and "to_name = myself st"
    and "cipher_open_by_nid srv cipher = Some oc"
    and "digest_open_by_nid srv digest maclength = Some od"
    and "maclength = int (digest_length od)"
    and "0 \<le> compression" and "compression \<le> 11"
    and "experimental st \<and> OPTION_VERSION srv (options from_n) \<ge> 2"
    and "node_read_ecdsa_public_key srv from_n = Some pubkey"
    and "length (b64decode srv key) = ECDH_SIZE srv + ecdsa_size srv pubkey"
    and "\<not> ECDH_SHARED_SIZE srv < cipher_keylength oc"
    and "ecdsa_verify srv pubkey (take (ECDH_SIZE srv) (b64decode srv key))
           (drop (ECDH_SIZE srv) (b64decode srv key))"
    and "(if ecdh from_n = None
          then send_ans_key_ecdh srv from_name
                 (set_node from_name
                    (from_n\<lparr>outcipher := oc, outdigest := od, outcompression := compression,
                            ecdsa := Some pubkey\<rparr>) st)
          else Some (True,
                 set_node from_name
                    (from_n\<lparr>outcipher := oc, outdigest := od, outcompression := compression,
                            ecdsa := Some pubkey\<rparr>) st)) = Some (True, st2)"
    and "node_tree st2 from_name = Some n2"
    and "ecdh_compute_shared srv (ecdh n2) (take (ECDH_SIZE srv) (b64decode srv key))
           = (h, Some shared)"
    and "node_tree (set_node from_name (n2\<lparr>ecdh := h\<rparr>) st2) (myself st) = Some me"
    and "key_expansion srv (name me) (name from_n) (cipher_keylength (incipher me))
           (cipher_keylength oc) shared (overwrite (b64decode srv key) key) = Some (mykey, hiskey)"
  shows "\<exists>st' n'. ans_key_h srv c request st = Some (True, st')
           \<and> node_tree st' from_name = Some n'
           \<and> incipher n' =
               cipher_set_key (cipher_reopen srv (incipher from_n) (cipher_get_nid (incipher me)))
                 mykey False
           \<and> indigest n' =
               digest_set_key
                 (digest_reopen srv (indigest from_n) (digest_get_nid (indigest me))
                    (int (digest_length (indigest me))))
                 (drop (cipher_keylength (incipher me)) mykey) (cipher_keylength (incipher me))
           \<and> outcipher n' = cipher_set_key oc hiskey True
           \<and> outdigest n' =
               digest_set_key od (drop (cipher_keylength oc) hiskey) (cipher_keylength oc)
           \<and> received_seqno n' = 0
           \<and> late n' = reset_late st (late from_n)
           \<and> sent_seqno n' = 0
           \<and> status_validkey n'
           \<and> mykeyused st'"
proof -
  let ?a = "optional_S rest 0" and ?p = "optional_S rest 1"
  let ?n3 = "from_n\<lparr>outcipher := oc, outdigest := od, outcompression := compression\<rparr>"
  let ?st3 = "set_node from_name ?n3 st"
  let ?st1 = "set_node from_name (?n3\<lparr>ecdsa := Some pubkey\<rparr>) st"
  let ?st5 = "set_node from_name (n2\<lparr>ecdh := h\<rparr>) st2"
  have n: "node_tree st from_name = Some from_n"
    using assms(4) by (simp add: lookup_node_def)
  have hd: "ans_key_h srv c request st =
             ans_key_terminal srv from_name key cipher digest maclength compression ?a ?p st"
    using ans_key_h_parsed [OF assms(1-5)] assms(6) by simp
  have valid: "ans_key_h srv c request st = ans_key_modern srv from_name key ?a ?p ?st3"
    unfolding hd using ans_key_terminal_valid [OF n assms(7-11)] assms(12) by simp
  have n3: "node_tree ?st3 from_name = Some ?n3" by simp
  have pre: "(if ecdh ?n3 = None
              then send_ans_key_ecdh srv from_name
                     (set_node from_name (?n3\<lparr>ecdsa := Some pubkey\<rparr>) ?st3)
              else Some (True, set_node from_name (?n3\<lparr>ecdsa := Some pubkey\<rparr>) ?st3))
             = Some (True, st2)"
    using assms(17) by (auto split: if_splits)
  have r: "node_read_ecdsa_public_key srv ?n3 = Some pubkey"
    using assms(13) by simp
  have s: "\<not> ECDH_SHARED_SIZE srv < cipher_keylength (outcipher ?n3)"
    using assms(15) by simp
  have path: "ans_key_h srv c request st =
                ans_key_update_crypto srv from_name shared (overwrite (b64decode srv key) key)
                  ?a ?p ?st5"
    unfolding valid
    using ans_key_modern_verified [OF n3 r assms(14) s assms(16) pre assms(18), of ?a ?p]
      assms(19)
    by simp
  have shape: "\<exists>h'. n2 = ?n3\<lparr>ecdsa := Some pubkey, ecdh := h'\<rparr>"
  proof (cases "ecdh from_n = None")
    case True
    then have se: "send_ans_key_ecdh srv from_name ?st1 = Some (True, st2)"
      using assms(17) by (auto split: if_splits)
    have "node_tree ?st1 from_name = Some (?n3\<lparr>ecdsa := Some pubkey\<rparr>)" by simp
    from send_ans_key_ecdh_node [OF se this] assms(18) show ?thesis by auto
  next
    case False
    then have "st2 = ?st1" using assms(17) by (auto split: if_splits)
    then have "n2 = ?n3\<lparr>ecdsa := Some pubkey\<rparr>" using assms(18) by simp
    then have "n2 = ?n3\<lparr>ecdsa := Some pubkey, ecdh := ecdh from_n\<rparr>" by simp
    then show ?thesis by blast
  qed
  then obtain h' where n2: "n2 = ?n3\<lparr>ecdsa := Some pubkey, ecdh := h'\<rparr>" by blast
  have glob: "myself st2 = myself st \<and> replaywin st2 = replaywin st"
  proof (cases "ecdh from_n = None")
    case True
    then have se: "send_ans_key_ecdh srv from_name ?st1 = Some (True, st2)"
      using assms(17) by (auto split: if_splits)
    from send_ans_key_ecdh_globals [OF se] show ?thesis by (simp add: set_node_def)
  next
    case False
    then show ?thesis using assms(17) by (auto simp: set_node_def split: if_splits)
  qed
  have a5: "node_tree ?st5 from_name = Some (n2\<lparr>ecdh := h\<rparr>)" by simp
  have b5: "node_tree ?st5 (myself ?st5) = Some me"
    using assms(20) glob by (simp add: set_node_def)
  have k5: "key_expansion srv (name me) (name (n2\<lparr>ecdh := h\<rparr>)) (cipher_keylength (incipher me))
             (cipher_keylength (outcipher (n2\<lparr>ecdh := h\<rparr>))) shared
             (overwrite (b64decode srv key) key) = Some (mykey, hiskey)"
    using assms(21) by (simp add: n2)
  have rl: "reset_late ?st5 (late (n2\<lparr>ecdh := h\<rparr>)) = reset_late st (late from_n)"
    using glob by (simp add: reset_late_def set_node_def n2)
  from ans_key_update_crypto_install [OF a5 b5 k5, of ?a ?p]
  obtain st' where u: "ans_key_update_crypto srv from_name shared
                         (overwrite (b64decode srv key) key) ?a ?p ?st5 = Some (True, st')"
    and nt: "node_tree st' from_name =
               Some (n2\<lparr>ecdh := h\<rparr>
                      \<lparr>incipher :=
                         cipher_set_key
                           (cipher_reopen srv (incipher (n2\<lparr>ecdh := h\<rparr>))
                              (cipher_get_nid (incipher me)))
                           mykey False,
                       indigest :=
                         digest_set_key
                           (digest_reopen srv (indigest (n2\<lparr>ecdh := h\<rparr>))
                              (digest_get_nid (indigest me))
                              (int (digest_length (indigest me))))
                           (drop (cipher_keylength (incipher me)) mykey)
                           (cipher_keylength (incipher me)),
                       incompression := incompression me,
                       outcipher := cipher_set_key (outcipher (n2\<lparr>ecdh := h\<rparr>)) hiskey True,
                       outdigest :=
                         digest_set_key (outdigest (n2\<lparr>ecdh := h\<rparr>))
                           (drop (cipher_keylength (outcipher (n2\<lparr>ecdh := h\<rparr>))) hiskey)
                           (cipher_keylength (outcipher (n2\<lparr>ecdh := h\<rparr>))),
                       received_seqno := 0,
                       late := reset_late ?st5 (late (n2\<lparr>ecdh := h\<rparr>)),
                       status_validkey := True, sent_seqno := 0,
                       address := (if ?a \<noteq> [] \<and> ?p \<noteq> [] then str2sockaddr srv ?a ?p
                                   else address (n2\<lparr>ecdh := h\<rparr>))\<rparr>)"
    and mk: "mykeyused st'"
    by blast
  show ?thesis
    unfolding path u using nt mk rl by (simp add: n2)
qed

lemma ans_key_h_legacy_install:
  assumes "sscanf request ans_key_format =
             AStr from_name # AStr to_name # AStr key # AInt cipher # AInt digest
               # AInt maclength # AInt compression # rest"
    and "check_id srv from_name" and "check_id srv to_name"
    and "lookup_node from_name st = Some from_n"
    and "lookup_node to_name st = Some to_n"
    and "to_name = myself st"
    and "cipher_open_by_nid srv cipher = Some oc"
    and "digest_open_by_nid srv digest maclength = Some od"
    and "maclength = int (digest_length od)"
    and "0 \<le> compression" and "compression \<le> 11"
    and "\<not> (experimental st \<and> OPTION_VERSION srv (options from_n) \<ge> 2)"
    and "length (hex2bin srv key) = cipher_keylength oc"
  shows "\<exists>st' n'. ans_key_h srv c request st = Some (True, st')
           \<and> node_tree st' from_name = Some n'
           \<and> outcipher n' = cipher_set_key oc (overwrite (hex2bin srv key) key) True
           \<and> outdigest n' =
               digest_set_key od (overwrite (hex2bin srv key) key) (length (hex2bin srv key))
           \<and> sent_seqno n' = 0
           \<and> status_validkey n'
           \<and> incipher n' = incipher from_n \<and> indigest n' = indigest from_n
           \<and> received_seqno n' = received_seqno from_n
           \<and> late n' = late from_n
           \<and> mykeyused st' = mykeyused st"
proof -
  let ?a = "optional_S rest 0" and ?p = "optional_S rest 1"
  let ?n3 = "from_n\<lparr>outcipher := oc, outdigest := od, outcompression := compression\<rparr>"
  let ?st3 = "set_node from_name ?n3 st"
  have n: "node_tree st from_name = Some from_n"
    using assms(4) by (simp add: lookup_node_def)
  have h: "ans_key_h srv c request st = ans_key_legacy srv from_name key ?a ?p ?st3"
    using ans_key_h_parsed [OF assms(1-5)] assms(6)
      ans_key_terminal_valid [OF n assms(7-11)] assms(12)
    by simp
  have n3: "node_tree ?st3 from_name = Some ?n3" by (simp add: set_node_def)
  let ?n4 = "?n3\<lparr>outcipher := cipher_set_key (outcipher ?n3) (overwrite (hex2bin srv key) key) True,
                  outdigest := digest_set_key (outdigest ?n3) (overwrite (hex2bin srv key) key)
                                 (length (hex2bin srv key))\<rparr>"
  let ?st4 = "set_node from_name ?n4 ?st3"
  have l: "ans_key_legacy srv from_name key ?a ?p ?st3 = ans_key_finish srv from_name ?a ?p ?st4"
    using assms(13) by (simp add: ans_key_legacy_def n3 Let_def)
  have n4: "node_tree ?st4 from_name = Some ?n4" by (simp add: set_node_def)
  have k4: "mykeyused ?st4 = mykeyused st" by (simp add: set_node_def)
  from ans_key_finish_result [OF n4, of srv ?a ?p]
  obtain st' where f: "ans_key_finish srv from_name ?a ?p ?st4 = Some (True, st')"
    and nt: "node_tree st' from_name =
               Some (?n4\<lparr>status_validkey := True, sent_seqno := 0,
                       address := (if ?a \<noteq> [] \<and> ?p \<noteq> [] then str2sockaddr srv ?a ?p
                                   else address ?n4)\<rparr>)"
    and mk: "mykeyused st' = mykeyused ?st4"
    by auto
  show ?thesis
    unfolding h l f using nt mk k4 by simp
qed

end
